theory Spec2Isabelle
  imports Complex_Main "HOL-Library.Sublist"
begin

section \<open>Python primitives used by the sources\<close>

text \<open>
  Exceptions are values. Every \<open>raise\<close> of the modelled code, and every library call of
  the source that can raise on the modelled path, is an \<open>Inl\<close> branch of a result of
  type \<open>py_error + 'a\<close>.
\<close>

datatype py_error =
    KeyError string
  | TypeError
  | AttributeError
  | IndexError
  | ZeroDivisionError
  | RuntimeError string
  | JSONDecodeError string
  | ServiceError string
  | QueueFull
  | QueueEmpty

text \<open>
  \<open>str.lower()\<close>, restricted to ASCII: the twenty-six capital letters are mapped to their
  small counterparts, every other character is left alone.
\<close>

definition lower_char :: "char \<Rightarrow> char" where
  "lower_char c =
     (case map_of (zip ''ABCDEFGHIJKLMNOPQRSTUVWXYZ'' ''abcdefghijklmnopqrstuvwxyz'') c of
        Some l \<Rightarrow> l
      | None \<Rightarrow> c)"

definition lower :: "string \<Rightarrow> string" where
  "lower s = map lower_char s"

text \<open>Python's \<open>sub in s\<close> on strings: \<open>sub\<close> occurs in \<open>s\<close> as a contiguous block.\<close>

fun str_in :: "string \<Rightarrow> string \<Rightarrow> bool" where
  "str_in sub [] = (sub = [])"
| "str_in sub (c # cs) = (prefix sub (c # cs) \<or> str_in sub cs)"

text \<open>
  \<open>collections.deque(maxlen=n).append(x)\<close>: the element goes to the right end; when the
  deque already holds \<open>n\<close> elements the leftmost one is discarded; a deque of capacity
  zero stays empty.
\<close>

definition deque_append :: "nat \<Rightarrow> 'a list \<Rightarrow> 'a \<Rightarrow> 'a list" where
  "deque_append maxlen xs x =
     (if maxlen = 0 then xs
      else if length xs = maxlen then tl xs @ [x]
      else xs @ [x])"

text \<open>Truthiness of an \<open>Optional[str]\<close>: \<open>None\<close> and the empty string are false.\<close>

fun truthy_str :: "string option \<Rightarrow> bool" where
  "truthy_str None = False"
| "truthy_str (Some s) = (s \<noteq> [])"


section \<open>FailureDetector (curriculum/failure\_detector.py)\<close>

text \<open>
  The three windows are deques created with \<open>maxlen=window_size\<close>; the tally is a dict
  keyed by category name. A negative \<open>window_size\<close> makes the constructor raise
  (\<open>deque\<close> rejects it), so a constructed detector has a natural-number capacity.
  Rewards and rates are floats in the source and reals here (rounding is not modelled).
\<close>

record FailureDetector =
  window_size :: nat
  min_success_rate :: real
  categories :: "string list"
  episode_rewards :: "real list"
  episode_successes :: "bool list"
  episode_lengths :: "int list"
  failure_counts :: "string \<rightharpoonup> nat"
  current_conditions :: string

definition default_categories :: "string list" where
  "default_categories = [''lighting'', ''occlusion'', ''visual'', ''distraction'']"

text \<open>\<open>categories or [...]\<close>: both \<open>None\<close> and the empty list select the default.\<close>

definition FailureDetector_init ::
  "nat \<Rightarrow> real \<Rightarrow> string list option \<Rightarrow> FailureDetector" where
  "FailureDetector_init ws msr cats =
     (let cs = (case cats of None \<Rightarrow> default_categories
                           | Some [] \<Rightarrow> default_categories
                           | Some l \<Rightarrow> l)
      in \<lparr> window_size = ws, min_success_rate = msr, categories = cs,
           episode_rewards = [], episode_successes = [], episode_lengths = [],
           failure_counts = map_of (map (\<lambda>c. (c, 0)) cs),
           current_conditions = ''neutral'' \<rparr>)"

text \<open>
  The loop \<open>for category in self.categories: if category in conditions.lower():
  self.failure_counts[category] += 1\<close>. The second argument is the lower-cased label;
  the category name is compared as configured. Reading a missing key raises.
\<close>

fun tally_failures ::
  "string list \<Rightarrow> string \<Rightarrow> (string \<rightharpoonup> nat) \<Rightarrow> py_error + (string \<rightharpoonup> nat)" where
  "tally_failures [] low fc = Inr fc"
| "tally_failures (category # rest) low fc =
     (if str_in category low
      then (case fc category of
              None \<Rightarrow> Inl (KeyError category)
            | Some n \<Rightarrow> tally_failures rest low (fc(category \<mapsto> n + 1)))
      else tally_failures rest low fc)"

definition record_episode ::
  "FailureDetector \<Rightarrow> real \<Rightarrow> bool \<Rightarrow> int \<Rightarrow> string option \<Rightarrow> py_error + FailureDetector" where
  "record_episode d reward success len conditions =
     (let d1 = d\<lparr> episode_rewards := deque_append (window_size d) (episode_rewards d) reward,
                  episode_successes := deque_append (window_size d) (episode_successes d) success,
                  episode_lengths := deque_append (window_size d) (episode_lengths d) len \<rparr>
      in case conditions of
           None \<Rightarrow> Inr d1
         | Some c \<Rightarrow>
             if \<not> truthy_str conditions then Inr d1
             else
               let d2 = d1\<lparr> current_conditions := c \<rparr>
               in if \<not> success
                  then (case tally_failures (categories d) (lower c) (failure_counts d) of
                          Inl e \<Rightarrow> Inl e
                        | Inr fc \<Rightarrow> Inr (d2\<lparr> failure_counts := fc \<rparr>))
                  else Inr d2)"

text \<open>\<open>sum(self.episode_successes)\<close> adds the booleans as 0 and 1.\<close>

definition get_success_rate :: "FailureDetector \<Rightarrow> real" where
  "get_success_rate d =
     (if episode_successes d = [] then 0
      else sum_list (map of_bool (episode_successes d)) / real (length (episode_successes d)))"

definition should_adapt :: "FailureDetector \<Rightarrow> bool" where
  "should_adapt d =
     (if length (episode_successes d) < window_size d div 2 then False
      else get_success_rate d < min_success_rate d)"

definition reset_statistics :: "FailureDetector \<Rightarrow> FailureDetector" where
  "reset_statistics d =
     d\<lparr> episode_rewards := [], episode_successes := [], episode_lengths := [],
        failure_counts := map_of (map (\<lambda>c. (c, 0)) (categories d)) \<rparr>"

text \<open>
  An episode as the caller reports it: reward, success flag, length, condition label.
  \<open>record_episodes\<close> records a sequence of them in order, stopping at the first
  exception as the caller's loop would.
\<close>

type_synonym episode = "real \<times> bool \<times> int \<times> string option"

fun record_episodes :: "FailureDetector \<Rightarrow> episode list \<Rightarrow> py_error + FailureDetector" where
  "record_episodes d [] = Inr d"
| "record_episodes d ((r, s, l, c) # eps) =
     (case record_episode d r s l c of
        Inl e \<Rightarrow> Inl e
      | Inr d' \<Rightarrow> record_episodes d' eps)"

text \<open>
  The tally is well formed when its keys are exactly the configured categories; this is
  what the constructor and \<open>reset_statistics\<close> establish.
\<close>

definition tally_wf :: "FailureDetector \<Rightarrow> bool" where
  "tally_wf d = (dom (failure_counts d) = set (categories d))"

text \<open>
  The specification's reading of the category test, written from its words: the name
  occurs in the label when the case of both is ignored.
\<close>

definition ci_substring :: "string \<Rightarrow> string \<Rightarrow> bool" where
  "ci_substring name label = str_in (lower name) (lower label)"

text \<open>A detector configured with the two categories of the specification's example.\<close>

definition lighting_occlusion :: FailureDetector where
  "lighting_occlusion = FailureDetector_init 10 (3/10) (Some [''lighting'', ''occlusion''])"

text \<open>
  Two detectors used as concrete inputs: five failed episodes to be recorded, and a
  window of six episodes of which two succeeded.
\<close>

definition five_failures :: "episode list" where
  "five_failures = replicate 5 (0, False, 200, None)"

definition mixed_window :: FailureDetector where
  "mixed_window = (FailureDetector_init 10 (3/10) None)
      \<lparr> episode_successes := [True, False, False, False, True, False] \<rparr>"


section \<open>LLMJudge (curriculum/llm\_judge.py)\<close>

subsection \<open>More Python primitives\<close>

text \<open>Sequencing of calls that may raise: the first exception ends the block.\<close>

definition try_bind :: "'e + 'a \<Rightarrow> ('a \<Rightarrow> 'e + 'b) \<Rightarrow> 'e + 'b" where
  "try_bind r f = (case r of Inl e \<Rightarrow> Inl e | Inr v \<Rightarrow> f v)"

text \<open>
  \<open>s.split(sep)\<close> for a non-empty separator: the pieces between the non-overlapping
  occurrences of \<open>sep\<close>, found from left to right. The accumulator holds the piece being
  read.
\<close>

fun py_split_from :: "string \<Rightarrow> string \<Rightarrow> string \<Rightarrow> string list" where
  "py_split_from sep acc [] = [acc]"
| "py_split_from sep acc (c # cs) =
     (if sep \<noteq> [] \<and> prefix sep (c # cs)
      then acc # py_split_from sep [] (drop (length sep) (c # cs))
      else py_split_from sep (acc @ [c]) cs)"

definition py_split :: "string \<Rightarrow> string \<Rightarrow> string list" where
  "py_split sep s = py_split_from sep [] s"

text \<open>\<open>xs[i]\<close> for a non-negative index; out of range it raises.\<close>

definition py_index :: "'a list \<Rightarrow> nat \<Rightarrow> py_error + 'a" where
  "py_index xs i = (if i < length xs then Inr (xs ! i) else Inl IndexError)"

text \<open>\<open>s.strip()\<close>: the ASCII characters Python counts as white space are removed at both ends.\<close>

definition is_space :: "char \<Rightarrow> bool" where
  "is_space c =
     (c \<in> set [CHR '' '', CHR 0x09, CHR 0x0A, CHR 0x0B, CHR 0x0C, CHR 0x0D,
                CHR 0x1C, CHR 0x1D, CHR 0x1E, CHR 0x1F])"

definition strip :: "string \<Rightarrow> string" where
  "strip s = rev (dropWhile is_space (rev (dropWhile is_space s)))"

text \<open>
  The values \<open>json.loads\<close> returns. \<open>JNull\<close> is Python's \<open>None\<close>; an object is a dict,
  read through \<open>map_of\<close>. Numbers, integral or not, are reals: rounding, overflow and
  the non-finite floats are not modelled.
\<close>

datatype json =
    JNull
  | JBool bool
  | JNum real
  | JStr string
  | JArr "json list"
  | JObj "(string \<times> json) list"

text \<open>\<open>result.get(key, default)\<close>: only a dict has the method.\<close>

fun dict_get :: "json \<Rightarrow> string \<Rightarrow> json \<Rightarrow> py_error + json" where
  "dict_get (JObj kv) key dflt = Inr (case map_of kv key of Some v \<Rightarrow> v | None \<Rightarrow> dflt)"
| "dict_get _ key dflt = Inl AttributeError"

text \<open>
  \<open>self.difficulty + v\<close> for a float on the left: a number is added, a boolean counts
  as 0 or 1, anything else raises \<open>TypeError\<close>.
\<close>

fun float_add :: "real \<Rightarrow> json \<Rightarrow> py_error + real" where
  "float_add d (JNum x) = Inr (d + x)"
| "float_add d (JBool b) = Inr (d + of_bool b)"
| "float_add d _ = Inl TypeError"

text \<open>\<open>str(e)\<close>: the message of an exception, where the model carries one.\<close>

fun error_text :: "py_error \<Rightarrow> string" where
  "error_text (KeyError k) = k"
| "error_text (RuntimeError m) = m"
| "error_text (JSONDecodeError m) = m"
| "error_text (ServiceError m) = m"
| "error_text TypeError = ''TypeError''"
| "error_text AttributeError = ''AttributeError''"
| "error_text IndexError = ''IndexError''"
| "error_text ZeroDivisionError = ''ZeroDivisionError''"
| "error_text QueueFull = ''''"
| "error_text QueueEmpty = ''''"

subsection \<open>The judge\<close>

text \<open>
  The fields of a \<open>JudgmentResult\<close> hold whatever the reply carried: the source does not
  check their types. The timestamp is a reading of the clock, passed in.
\<close>

record JudgmentResult =
  timestamp :: nat
  observation :: json
  failure_mode :: json
  reasoning :: json
  curriculum_prompt :: json
  difficulty_level :: real

text \<open>
  The judge's own \<open>window_size\<close> is the field \<open>judge_window_size\<close> here, the name being
  taken by the detector's.
\<close>

record LLMJudge =
  difficulty :: real
  difficulty_progression :: real
  evaluation_history :: "JudgmentResult list"
  success_window :: "bool list"
  judge_window_size :: nat

definition LLMJudge_init :: "real \<Rightarrow> LLMJudge" where
  "LLMJudge_init progression =
     \<lparr> difficulty = 3/10, difficulty_progression = progression,
       evaluation_history = [], success_window = [], judge_window_size = 10 \<rparr>"

text \<open>
  What the judgment service does on one call is not the program's to decide: the call
  raises, or it returns a message whose content is a text or \<open>None\<close>. The request
  built from \<open>success_rate\<close>, \<open>recent_failures\<close> and \<open>episode_num\<close> reaches the service
  only; the result of \<open>evaluate_performance\<close> depends on it through this outcome alone.
\<close>

datatype service_outcome =
    ServiceRaises string
  | ServiceContent "string option"

text \<open>The removal of a Markdown code fence around the reply.\<close>

definition extract_json_text :: "string \<Rightarrow> py_error + string" where
  "extract_json_text result_text =
     (if str_in ''```json'' result_text
      then try_bind (py_index (py_split ''```json'' result_text) 1)
             (\<lambda>inner. py_index (py_split ''```'' inner) 0)
      else if str_in ''```'' result_text
      then try_bind (py_index (py_split ''```'' result_text) 1)
             (\<lambda>inner. py_index (py_split ''```'' inner) 0)
      else Inr result_text)"

text \<open>
  The body of the \<open>try\<close> block. \<open>loads\<close> is \<open>json.loads\<close>, a parameter. Testing
  \<open>"```json" in None\<close> raises \<open>TypeError\<close>. The difficulty is assigned only after
  the sum has been computed, so an exception leaves the judge as it was.
\<close>

definition evaluate_try ::
  "(string \<Rightarrow> py_error + json) \<Rightarrow> nat \<Rightarrow> LLMJudge \<Rightarrow> service_outcome
     \<Rightarrow> py_error + (JudgmentResult \<times> LLMJudge)" where
  "evaluate_try loads now j outcome =
     (case outcome of
        ServiceRaises m \<Rightarrow> Inl (ServiceError m)
      | ServiceContent None \<Rightarrow> Inl TypeError
      | ServiceContent (Some result_text) \<Rightarrow>
          try_bind (extract_json_text result_text) (\<lambda>txt.
          try_bind (loads (strip txt)) (\<lambda>result.
          try_bind (dict_get result ''difficulty_adjustment'' (JNum 0)) (\<lambda>adj.
          try_bind (float_add (difficulty j) adj) (\<lambda>s.
          let j1 = j\<lparr> difficulty := max (1/10) (min 1 s) \<rparr> in
          try_bind (dict_get result ''observation'' (JStr '''')) (\<lambda>obs.
          try_bind (dict_get result ''failure_mode'' JNull) (\<lambda>fm.
          try_bind (dict_get result ''reasoning'' (JStr '''')) (\<lambda>rs.
          try_bind (dict_get result ''curriculum_prompt'' JNull) (\<lambda>cp.
          let judgment = \<lparr> timestamp = now, observation = obs, failure_mode = fm,
                           reasoning = rs, curriculum_prompt = cp,
                           difficulty_level = difficulty j1 \<rparr>
          in Inr (judgment,
                  j1\<lparr> evaluation_history := evaluation_history j1 @ [judgment] \<rparr>))))))))))"

definition fallback_judgment :: "nat \<Rightarrow> LLMJudge \<Rightarrow> py_error \<Rightarrow> JudgmentResult" where
  "fallback_judgment now j e =
     \<lparr> timestamp = now,
       observation = JStr ''Unable to evaluate - LLM error occurred'',
       failure_mode = JStr ''llm_evaluation_error'',
       reasoning = JStr (error_text e),
       curriculum_prompt = JNull,
       difficulty_level = difficulty j \<rparr>"

text \<open>\<open>except Exception\<close> catches every exception of the block.\<close>

definition evaluate_performance ::
  "(string \<Rightarrow> py_error + json) \<Rightarrow> nat \<Rightarrow> LLMJudge \<Rightarrow> service_outcome
     \<Rightarrow> JudgmentResult \<times> LLMJudge" where
  "evaluate_performance loads now j outcome =
     (case evaluate_try loads now j outcome of
        Inr r \<Rightarrow> r
      | Inl e \<Rightarrow> (fallback_judgment now j e, j))"

text \<open>A sequence of calls, each with its clock reading and what the service did.\<close>

fun evaluate_all ::
  "(string \<Rightarrow> py_error + json) \<Rightarrow> LLMJudge \<Rightarrow> (nat \<times> service_outcome) list \<Rightarrow> LLMJudge" where
  "evaluate_all loads j [] = j"
| "evaluate_all loads j ((now, outcome) # rest) =
     evaluate_all loads (snd (evaluate_performance loads now j outcome)) rest"

text \<open>
  The value \<open>json.loads\<close> hands back for an outcome, if the block gets that far, and
  whether the block raises: no parsed value, a parsed value that is not a dict, or a
  \<open>difficulty_adjustment\<close> that cannot be added to a float.
\<close>

definition parsed_reply :: "(string \<Rightarrow> py_error + json) \<Rightarrow> service_outcome \<Rightarrow> json option" where
  "parsed_reply loads outcome =
     (case outcome of
        ServiceRaises m \<Rightarrow> None
      | ServiceContent None \<Rightarrow> None
      | ServiceContent (Some result_text) \<Rightarrow>
          (case extract_json_text result_text of
             Inl e \<Rightarrow> None
           | Inr txt \<Rightarrow> (case loads (strip txt) of Inl e \<Rightarrow> None | Inr v \<Rightarrow> Some v)))"

fun addable :: "json \<Rightarrow> bool" where
  "addable (JNum x) = True"
| "addable (JBool b) = True"
| "addable _ = False"

definition reply_fails :: "(string \<Rightarrow> py_error + json) \<Rightarrow> service_outcome \<Rightarrow> bool" where
  "reply_fails loads outcome =
     (case parsed_reply loads outcome of
        None \<Rightarrow> True
      | Some (JObj kv) \<Rightarrow>
          (case map_of kv ''difficulty_adjustment'' of None \<Rightarrow> False | Some v \<Rightarrow> \<not> addable v)
      | Some _ \<Rightarrow> True)"

text \<open>
  A stand-in for \<open>json.loads\<close> on finitely many texts, for concrete inputs: the listed
  texts parse to the listed values, every other text is rejected.
\<close>

definition loads_table :: "(string \<times> json) list \<Rightarrow> string \<Rightarrow> py_error + json" where
  "loads_table tbl s = (case map_of tbl s of Some v \<Rightarrow> Inr v | None \<Rightarrow> Inl (JSONDecodeError s))"

text \<open>
  The specification's delta-acceptance step, written from its words: the raw delta is
  restricted to the interval from -0.1 to 0.1 before it is added.
\<close>

definition spec_clamp_delta :: "real \<Rightarrow> real" where
  "spec_clamp_delta x = max (- (1/10)) (min (1/10) x)"

definition spec_new_difficulty :: "real \<Rightarrow> real \<Rightarrow> real" where
  "spec_new_difficulty d x = max (1/10) (min 1 (d + spec_clamp_delta x))"

text \<open>
  The result of a call that does not raise, written out: the adjustment read from the
  reply's dict (0 when the key is absent), each field with the default of its \<open>get\<close>.
\<close>

definition adjustment :: "(string \<times> json) list \<Rightarrow> real" where
  "adjustment kv =
     (case map_of kv ''difficulty_adjustment'' of
        Some (JNum x) \<Rightarrow> x
      | Some (JBool b) \<Rightarrow> of_bool b
      | _ \<Rightarrow> 0)"

definition field :: "(string \<times> json) list \<Rightarrow> string \<Rightarrow> json \<Rightarrow> json" where
  "field kv key dflt = (case map_of kv key of Some v \<Rightarrow> v | None \<Rightarrow> dflt)"

definition normal_judgment :: "nat \<Rightarrow> LLMJudge \<Rightarrow> (string \<times> json) list \<Rightarrow> JudgmentResult" where
  "normal_judgment now j kv =
     \<lparr> timestamp = now,
       observation = field kv ''observation'' (JStr ''''),
       failure_mode = field kv ''failure_mode'' JNull,
       reasoning = field kv ''reasoning'' (JStr ''''),
       curriculum_prompt = field kv ''curriculum_prompt'' JNull,
       difficulty_level = max (1/10) (min 1 (difficulty j + adjustment kv)) \<rparr>"

text \<open>
  Concrete replies of the service, and \<open>json.loads\<close> on them. \<open>reject_all\<close> is the
  parser on texts that are not JSON at all.
\<close>

definition reject_all :: "string \<Rightarrow> py_error + json" where
  "reject_all = loads_table []"

definition reply_minus_03 :: string where
  \<open>reply_minus_03 = ''{"difficulty_adjustment": -0.3}''\<close>

definition reply_plus_01 :: string where
  \<open>reply_plus_01 = ''```json {"difficulty_adjustment": 0.1} ```''\<close>

definition reply_empty_object :: string where
  \<open>reply_empty_object = ''{}''\<close>

definition reply_observation_only :: string where
  \<open>reply_observation_only = ''{"observation": "arm stalls near the cube"}''\<close>

definition sample_loads :: "string \<Rightarrow> py_error + json" where
  \<open>sample_loads = loads_table
     [(''{"difficulty_adjustment": -0.3}'', JObj [(''difficulty_adjustment'', JNum (- (3/10)))]),
      (''{"difficulty_adjustment": 0.1}'', JObj [(''difficulty_adjustment'', JNum (1/10))]),
      (''{}'', JObj []),
      (''{"observation": "arm stalls near the cube"}'',
         JObj [(''observation'', JStr ''arm stalls near the cube'')])]\<close>


section \<open>The frame buffer of OdysseyEnv (envs/odyssey\_env.py)\<close>

text \<open>
  \<open>queue.Queue(maxsize)\<close>, used from one thread: \<open>put_nowait\<close> raises \<open>Full\<close> when
  \<open>maxsize\<close> is positive and that many items are queued (a \<open>maxsize\<close> of zero means no
  bound); \<open>get_nowait\<close> removes the oldest item and raises \<open>Empty\<close> on an empty queue.
  Neither call waits.
\<close>

definition put_nowait :: "nat \<Rightarrow> 'a list \<Rightarrow> 'a \<Rightarrow> py_error + 'a list" where
  "put_nowait maxsize q x =
     (if 0 < maxsize \<and> maxsize \<le> length q then Inl QueueFull else Inr (q @ [x]))"

definition get_nowait :: "'a list \<Rightarrow> py_error + ('a \<times> 'a list)" where
  "get_nowait q = (case q of [] \<Rightarrow> Inl QueueEmpty | x # rest \<Rightarrow> Inr (x, rest))"

text \<open>
  The part of the environment that \<open>_on_frame\<close> touches. \<open>evictions\<close> is not a field of
  the source: it counts the frames that \<open>get_nowait\<close> removed in the handler of \<open>Full\<close>,
  so that the number of dropped frames can be stated.
\<close>

record 'f frame_buffer =
  maxsize :: nat
  frame_queue :: "'f list"
  latest_frame :: "'f option"
  evictions :: nat

definition empty_buffer :: "nat \<Rightarrow> 'f frame_buffer" where
  "empty_buffer c = \<lparr> maxsize = c, frame_queue = [], latest_frame = None, evictions = 0 \<rparr>"

text \<open>The constructor creates the queue with \<open>maxsize=10\<close>.\<close>

definition OdysseyEnv_frame_buffer :: "'f frame_buffer" where
  "OdysseyEnv_frame_buffer = empty_buffer 10"

text \<open>
  \<open>_on_frame\<close>: the frame becomes the latest one and is queued; when the queue is full
  the oldest frame is taken out and the new one queued in its place. The inner
  \<open>except: pass\<close> swallows whatever the two inner calls raise.
\<close>

definition on_frame :: "'f frame_buffer \<Rightarrow> 'f \<Rightarrow> 'f frame_buffer" where
  "on_frame b frame =
     (let b1 = b\<lparr> latest_frame := Some frame \<rparr>
      in case put_nowait (maxsize b) (frame_queue b) frame of
           Inr q \<Rightarrow> b1\<lparr> frame_queue := q \<rparr>
         | Inl full \<Rightarrow>
             (case get_nowait (frame_queue b) of
                Inl e \<Rightarrow> b1
              | Inr (oldest, q1) \<Rightarrow>
                  (case put_nowait (maxsize b) q1 frame of
                     Inl e \<Rightarrow> b1\<lparr> frame_queue := q1, evictions := evictions b + 1 \<rparr>
                   | Inr q2 \<Rightarrow> b1\<lparr> frame_queue := q2, evictions := evictions b + 1 \<rparr>)))"

text \<open>The frames of a stream arriving one after the other.\<close>

fun push_frames :: "'f frame_buffer \<Rightarrow> 'f list \<Rightarrow> 'f frame_buffer" where
  "push_frames b [] = b"
| "push_frames b (f # fs) = push_frames (on_frame b f) fs"


section \<open>The transports (envs/odyssey\_client.py, envs/odyssey\_mock.py)\<close>

text \<open>The messages the client writes to its socket, before \<open>json.dumps\<close>.\<close>

datatype payload =
    StartStream string bool
  | Interact string string
  | EndStream string

text \<open>
  The client, as far as \<open>interact\<close> reads it: the stream identifier and the socket,
  which is \<open>None\<close> before \<open>connect\<close> and is represented by the messages sent so far.
\<close>

record OdysseyClient =
  current_stream_id :: "string option"
  ws :: "payload list option"

definition client_interact :: "OdysseyClient \<Rightarrow> string \<Rightarrow> py_error + OdysseyClient" where
  "client_interact c prompt =
     (if \<not> truthy_str (current_stream_id c)
      then Inl (RuntimeError ''No active stream to interact with'')
      else case current_stream_id c of
             None \<Rightarrow> Inl (RuntimeError ''No active stream to interact with'')
           | Some sid \<Rightarrow>
               (case ws c of
                  None \<Rightarrow> Inl AttributeError
                | Some sent \<Rightarrow> Inr (c\<lparr> ws := Some (sent @ [Interact prompt sid]) \<rparr>)))"

text \<open>A client that is connected and has no stream.\<close>

definition connected_client :: OdysseyClient where
  "connected_client = \<lparr> current_stream_id = None, ws = Some [] \<rparr>"

text \<open>
  The mock client. Its stream identifier is the field \<open>mock_stream_id\<close> here. Positions
  are integers at first and floats after a proportional move; they are reals here.
\<close>

record MockOdysseyClient =
  connected :: bool
  mock_stream_id :: "string option"
  should_stream :: bool
  arm_x :: real
  arm_y :: real
  object_x :: real
  object_y :: real
  gripper_open :: bool
  lighting :: string
  frame_count :: nat

definition MockOdysseyClient_init :: MockOdysseyClient where
  "MockOdysseyClient_init =
     \<lparr> connected = False, mock_stream_id = None, should_stream = False,
       arm_x = 320, arm_y = 400, object_x = 400, object_y = 450,
       gripper_open = True, lighting = ''neutral'', frame_count = 0 \<rparr>"

text \<open>
  \<open>MockOdysseyClient.interact\<close>: three groups of keyword tests on the lower-cased
  prompt, for the movement, the gripper and the lighting. No statement of the method
  reads the stream identifier, and none raises.
\<close>

definition mock_move :: "MockOdysseyClient \<Rightarrow> string \<Rightarrow> MockOdysseyClient" where
  "mock_move m p =
     (if str_in ''forward'' p \<or> str_in ''towards'' p
      then let diff_x = object_x m - arm_x m; diff_y = object_y m - arm_y m
           in m\<lparr> arm_x := arm_x m + diff_x * (1/10), arm_y := arm_y m + diff_y * (1/10) \<rparr>
      else if str_in ''backward'' p \<or> str_in ''away'' p
      then let diff_x = object_x m - arm_x m; diff_y = object_y m - arm_y m
           in m\<lparr> arm_x := arm_x m - diff_x * (1/10), arm_y := arm_y m - diff_y * (1/10) \<rparr>
      else if str_in ''left'' p then m\<lparr> arm_x := arm_x m - 20 \<rparr>
      else if str_in ''right'' p then m\<lparr> arm_x := arm_x m + 20 \<rparr>
      else if str_in ''up'' p then m\<lparr> arm_y := arm_y m - 20 \<rparr>
      else if str_in ''down'' p then m\<lparr> arm_y := arm_y m + 20 \<rparr>
      else m)"

definition mock_gripper :: "MockOdysseyClient \<Rightarrow> string \<Rightarrow> MockOdysseyClient" where
  "mock_gripper m p =
     (if str_in ''close'' p \<or> str_in ''grasp'' p
      then let m1 = m\<lparr> gripper_open := False \<rparr>;
               dist = sqrt ((arm_x m1 - object_x m1)\<^sup>2 + (arm_y m1 - object_y m1)\<^sup>2)
           in if dist < 50 then m1\<lparr> object_x := arm_x m1, object_y := arm_y m1 \<rparr> else m1
      else if str_in ''open'' p \<or> str_in ''release'' p then m\<lparr> gripper_open := True \<rparr>
      else m)"

definition mock_lighting :: "MockOdysseyClient \<Rightarrow> string \<Rightarrow> MockOdysseyClient" where
  "mock_lighting m p =
     (if str_in ''dim'' p \<or> str_in ''dark'' p then m\<lparr> lighting := ''dim'' \<rparr>
      else if str_in ''bright'' p \<or> str_in ''harsh'' p then m\<lparr> lighting := ''harsh'' \<rparr>
      else if str_in ''dramatic'' p then m\<lparr> lighting := ''dramatic'' \<rparr>
      else m)"

definition mock_interact :: "MockOdysseyClient \<Rightarrow> string \<Rightarrow> MockOdysseyClient" where
  "mock_interact m prompt =
     (let prompt_lower = lower prompt
      in mock_lighting (mock_gripper (mock_move m prompt_lower) prompt_lower) prompt_lower)"


section \<open>The adaptation loop (training/train.py)\<close>

text \<open>
  What \<open>generate_perturbation\<close> does on one call belongs to the controller's service:
  it returns an instruction or raises.
\<close>

datatype controller_outcome =
    ControllerRaises string
  | ControllerReturns string

text \<open>
  The callback. \<open>env_conditions\<close> is the attribute \<open>current_conditions\<close> of the
  environment, absent until the first adaptation sets it. The last two fields are not
  in the source: they record how many episodes have completed and at which of them
  \<open>generate_perturbation\<close> was called.
\<close>

record CurriculumCallback =
  failure_detector :: FailureDetector
  adaptation_frequency :: int
  current_episode_reward :: real
  current_episode_length :: int
  env_conditions :: "string option"
  episodes_completed :: nat
  controller_calls :: "nat list"

definition CurriculumCallback_init :: "FailureDetector \<Rightarrow> int \<Rightarrow> CurriculumCallback" where
  "CurriculumCallback_init d freq =
     \<lparr> failure_detector = d, adaptation_frequency = freq,
       current_episode_reward = 0, current_episode_length = 0,
       env_conditions = None, episodes_completed = 0, controller_calls = [] \<rparr>"

text \<open>
  \<open>_adapt_curriculum\<close>: the call of the controller sits in a \<open>try\<close> whose handler only
  prints; on success the instruction is stored on the environment.
\<close>

definition adapt_curriculum :: "CurriculumCallback \<Rightarrow> controller_outcome \<Rightarrow> CurriculumCallback" where
  "adapt_curriculum cb outcome =
     (let cb1 = cb\<lparr> controller_calls := controller_calls cb @ [episodes_completed cb] \<rparr>
      in case outcome of
           ControllerReturns perturbation \<Rightarrow> cb1\<lparr> env_conditions := Some perturbation \<rparr>
         | ControllerRaises msg \<Rightarrow> cb1)"

text \<open>
  \<open>_on_step\<close> for one step with the given reward and done flag. The cadence test reads
  the length of the detector's success window; \<open>%\<close> by zero raises, and is evaluated
  before \<open>should_adapt\<close>.
\<close>

definition on_step ::
  "CurriculumCallback \<Rightarrow> real \<Rightarrow> bool \<Rightarrow> controller_outcome \<Rightarrow> py_error + CurriculumCallback" where
  "on_step cb reward done outcome =
     (let cb1 = cb\<lparr> current_episode_reward := current_episode_reward cb + reward,
                    current_episode_length := current_episode_length cb + 1 \<rparr>
      in if done
         then
           let success = (current_episode_reward cb1 > 0);
               conditions = (case env_conditions cb1 of None \<Rightarrow> ''neutral'' | Some c \<Rightarrow> c)
           in try_bind (record_episode (failure_detector cb1) (current_episode_reward cb1)
                          success (current_episode_length cb1) (Some conditions))
                (\<lambda>d.
                   let cb2 = cb1\<lparr> failure_detector := d,
                                  episodes_completed := episodes_completed cb1 + 1 \<rparr>
                   in if adaptation_frequency cb2 = 0 then Inl ZeroDivisionError
                      else
                        let cb3 = (if int (length (episode_successes d)) mod adaptation_frequency cb2 = 0
                                      \<and> should_adapt d
                                   then adapt_curriculum cb2 outcome
                                   else cb2)
                        in Inr (cb3\<lparr> current_episode_reward := 0, current_episode_length := 0 \<rparr>))
         else Inr cb1)"

text \<open>A run of the training loop: for each step its reward, its done flag and what the
  controller would do if called.\<close>

fun on_steps ::
  "CurriculumCallback \<Rightarrow> (real \<times> bool \<times> controller_outcome) list \<Rightarrow> py_error + CurriculumCallback" where
  "on_steps cb [] = Inr cb"
| "on_steps cb ((reward, done, outcome) # rest) =
     try_bind (on_step cb reward done outcome) (\<lambda>cb'. on_steps cb' rest)"

text \<open>Five one-step episodes with reward 0, the controller answering each time.\<close>

definition five_failed_episodes :: "(real \<times> bool \<times> controller_outcome) list" where
  "five_failed_episodes = replicate 5 (0, True, ControllerReturns ''add fog'')"

text \<open>A callback on a detector with a window of four episodes, adapting every second episode.\<close>

definition small_callback :: CurriculumCallback where
  "small_callback = CurriculumCallback_init (FailureDetector_init 4 (3/10) None) 2"


section \<open>Facts about the primitives\<close>

lemma str_in_iff_sublist: "str_in sub s \<longleftrightarrow> sublist sub s"
  by (induction s) (auto simp: sublist_Cons_right)

lemma length_deque_append:
  "length xs \<le> n \<Longrightarrow> length (deque_append n xs x) = min n (Suc (length xs))"
  by (cases xs) (auto simp: deque_append_def)

lemma deque_append_drop:
  "length xs \<le> n \<Longrightarrow> deque_append n xs x = drop (Suc (length xs) - n) (xs @ [x])"
  by (cases xs) (auto simp: deque_append_def Suc_diff_le)

lemma sum_list_of_bool:
  "sum_list (map of_bool bs) = real (length (filter (\<lambda>b. b) bs))"
  by (induction bs) auto


section \<open>Facts about the FailureDetector\<close>

lemma tally_wf_init: "tally_wf (FailureDetector_init wsize msr cats)"
  by (auto simp: tally_wf_def FailureDetector_init_def Let_def dom_map_of_conv_image_fst image_image
      split: option.splits list.splits)

lemma tally_wf_reset: "tally_wf (reset_statistics d)"
  by (auto simp: tally_wf_def reset_statistics_def dom_map_of_conv_image_fst image_image)

lemma tally_failures_ok:
  "set cs \<subseteq> dom fc \<Longrightarrow> \<exists>fc'. tally_failures cs low fc = Inr fc' \<and> dom fc' = dom fc"
proof (induction cs arbitrary: fc)
  case Nil
  then show ?case by simp
next
  case (Cons c cs)
  show ?case
  proof (cases "str_in c low")
    case False
    with Cons show ?thesis by simp
  next
    case True
    from Cons.prems obtain n where n: "fc c = Some n" by auto
    have "set cs \<subseteq> dom (fc(c \<mapsto> n + 1))" using Cons.prems by auto
    from Cons.IH[OF this] obtain fc' where
      "tally_failures cs low (fc(c \<mapsto> n + 1)) = Inr fc'" "dom fc' = dom (fc(c \<mapsto> n + 1))"
      by blast
    moreover have "dom (fc(c \<mapsto> n + 1)) = dom fc" using n by auto
    ultimately show ?thesis using True n by simp
  qed
qed

lemma tally_failures_result:
  "set cs \<subseteq> dom fc \<Longrightarrow>
   tally_failures cs low fc =
     Inr (\<lambda>k. if str_in k low then map_option (\<lambda>n. n + count_list cs k) (fc k) else fc k)"
proof (induction cs arbitrary: fc)
  case Nil
  show ?case by (auto simp: map_option.identity option.map_ident)
next
  case (Cons c cs)
  show ?case
  proof (cases "str_in c low")
    case False
    have "set cs \<subseteq> dom fc" using Cons.prems by auto
    from Cons.IH[OF this] False show ?thesis by (auto intro!: ext)
  next
    case True
    from Cons.prems obtain n where n: "fc c = Some n" by auto
    have "set cs \<subseteq> dom (fc(c \<mapsto> n + 1))" using Cons.prems by auto
    from Cons.IH[OF this] have
      "tally_failures cs low (fc(c \<mapsto> n + 1)) =
         Inr (\<lambda>k. if str_in k low
                  then map_option (\<lambda>n. n + count_list cs k) ((fc(c \<mapsto> n + 1)) k)
                  else (fc(c \<mapsto> n + 1)) k)" .
    moreover have
      "(\<lambda>k. if str_in k low
            then map_option (\<lambda>n. n + count_list cs k) ((fc(c \<mapsto> n + 1)) k)
            else (fc(c \<mapsto> n + 1)) k) =
       (\<lambda>k. if str_in k low
            then map_option (\<lambda>n. n + count_list (c # cs) k) (fc k)
            else fc k)"
      using True n by (auto intro!: ext simp: option.map_comp comp_def)
    ultimately show ?thesis using True n by simp
  qed
qed

lemma record_episode_result:
  assumes "tally_wf d"
  shows "record_episode d reward success len conditions =
     Inr (d\<lparr> episode_rewards := deque_append (window_size d) (episode_rewards d) reward,
             episode_successes := deque_append (window_size d) (episode_successes d) success,
             episode_lengths := deque_append (window_size d) (episode_lengths d) len,
             current_conditions := (if truthy_str conditions then the conditions else current_conditions d),
             failure_counts :=
               (if \<not> success \<and> truthy_str conditions
                then (\<lambda>k. if str_in k (lower (the conditions))
                          then map_option (\<lambda>n. n + count_list (categories d) k) (failure_counts d k)
                          else failure_counts d k)
                else failure_counts d) \<rparr>)"
proof -
  have sub: "set (categories d) \<subseteq> dom (failure_counts d)"
    using assms by (simp add: tally_wf_def)
  show ?thesis
    by (cases conditions) (simp_all add: record_episode_def Let_def tally_failures_result[OF sub])
qed

lemma deque_append_last:
  "0 < n \<Longrightarrow> deque_append n xs x \<noteq> [] \<and> last (deque_append n xs x) = x"
  by (simp add: deque_append_def)

lemma count_list_distinct:
  "distinct xs \<Longrightarrow> x \<in> set xs \<Longrightarrow> count_list xs x = 1"
  by (induction xs) auto

lemma record_episode_windows:
  assumes "record_episode d reward success len conditions = Inr d'"
  shows "episode_rewards d' = deque_append (window_size d) (episode_rewards d) reward"
    and "episode_successes d' = deque_append (window_size d) (episode_successes d) success"
    and "episode_lengths d' = deque_append (window_size d) (episode_lengths d) len"
    and "window_size d' = window_size d"
    and "min_success_rate d' = min_success_rate d"
    and "categories d' = categories d"
  using assms
  by (auto simp: record_episode_def Let_def split: option.splits if_splits sum.splits)

lemma record_episode_wf:
  assumes "tally_wf d"
  shows "\<exists>d'. record_episode d r s l c = Inr d' \<and> tally_wf d'
           \<and> window_size d' = window_size d \<and> min_success_rate d' = min_success_rate d
           \<and> categories d' = categories d
           \<and> episode_successes d' = deque_append (window_size d) (episode_successes d) s"
proof -
  have "record_episode d r s l c \<noteq> Inl e" for e
    by (simp add: record_episode_result[OF assms])
  then obtain d' where d': "record_episode d r s l c = Inr d'"
    by (cases "record_episode d r s l c") auto
  have "dom (failure_counts d') = dom (failure_counts d)"
    using d' by (auto simp: record_episode_result[OF assms] dom_def split: if_splits)
  then show ?thesis
    using d' assms record_episode_windows[OF d'] by (simp add: tally_wf_def)
qed

lemma record_episodes_successes:
  assumes "tally_wf d"
  shows "\<exists>d'. record_episodes d eps = Inr d' \<and> tally_wf d'
           \<and> window_size d' = window_size d \<and> min_success_rate d' = min_success_rate d
           \<and> episode_successes d' =
               foldl (deque_append (window_size d)) (episode_successes d) (map (\<lambda>e. fst (snd e)) eps)"
  using assms
proof (induction eps arbitrary: d)
  case Nil
  then show ?case by simp
next
  case (Cons e eps)
  obtain r s l c where e: "e = (r, s, l, c)" by (cases e) auto
  from record_episode_wf[OF Cons.prems, of r s l c] obtain d1 where
    d1: "record_episode d r s l c = Inr d1" "tally_wf d1" "window_size d1 = window_size d"
        "min_success_rate d1 = min_success_rate d"
        "episode_successes d1 = deque_append (window_size d) (episode_successes d) s"
    by blast
  from Cons.IH[OF d1(2)] obtain d' where
    "record_episodes d1 eps = Inr d'" "tally_wf d'" "window_size d' = window_size d1"
    "min_success_rate d' = min_success_rate d1"
    "episode_successes d' =
       foldl (deque_append (window_size d1)) (episode_successes d1) (map (\<lambda>e. fst (snd e)) eps)"
    by blast
  then show ?case using d1 e by simp
qed

lemma foldl_deque_append_short:
  "length xs + length ys \<le> n \<Longrightarrow> foldl (deque_append n) xs ys = xs @ ys"
proof (induction ys arbitrary: xs)
  case Nil
  then show ?case by simp
next
  case (Cons y ys)
  have "deque_append n xs y = xs @ [y]" using Cons.prems by (auto simp: deque_append_def)
  moreover have "length (xs @ [y]) + length ys \<le> n" using Cons.prems by simp
  ultimately show ?case using Cons.IH[of "xs @ [y]"] by simp
qed

lemma all_failures_filter:
  "\<forall>b \<in> set bs. \<not> b \<Longrightarrow> filter (\<lambda>b. b) bs = []"
  by (induction bs) auto

lemma should_adapt_all_failures:
  assumes "\<forall>b \<in> set (episode_successes d). \<not> b"
    and "0 < min_success_rate d"
  shows "should_adapt d \<longleftrightarrow> window_size d div 2 \<le> length (episode_successes d)"
  using assms
  by (auto simp: should_adapt_def get_success_rate_def sum_list_of_bool all_failures_filter)


subsection \<open>What one call of record\_episode changes\<close>

text \<open>
  On a detector whose tally is keyed by its categories, \<open>record_episode\<close> returns
  normally; each of the three windows receives the new entry by a rolling append (with a
  positive capacity the new entry is the last one). The tally changes exactly when
  \<open>success\<close> is false and the label is present and non-empty: then every category whose
  configured name occurs in the lower-cased label gains one count per occurrence of the
  category in the configured list (one count when the list has no duplicates), and no
  other tally changes.
\<close>

lemma record_episode_tally:
  assumes wf: "tally_wf d"
  shows "\<exists>d'. record_episode d reward success len conditions = Inr d'
      \<and> episode_rewards d' = deque_append (window_size d) (episode_rewards d) reward
      \<and> episode_successes d' = deque_append (window_size d) (episode_successes d) success
      \<and> episode_lengths d' = deque_append (window_size d) (episode_lengths d) len
      \<and> (0 < window_size d \<longrightarrow>
           last (episode_rewards d') = reward \<and> last (episode_successes d') = success
           \<and> last (episode_lengths d') = len)
      \<and> (\<forall>cat. failure_counts d' cat =
           (if \<not> success \<and> (case conditions of None \<Rightarrow> False
                                | Some c \<Rightarrow> c \<noteq> [] \<and> str_in cat (lower c))
            then map_option (\<lambda>n. n + count_list (categories d) cat) (failure_counts d cat)
            else failure_counts d cat))
      \<and> (distinct (categories d) \<longrightarrow>
           (\<forall>cat \<in> set (categories d). failure_counts d' cat =
             (if \<not> success \<and> (case conditions of None \<Rightarrow> False
                                  | Some c \<Rightarrow> c \<noteq> [] \<and> str_in cat (lower c))
              then map_option (\<lambda>n. n + 1) (failure_counts d cat)
              else failure_counts d cat)))"
proof -
  let ?d' = "d\<lparr> episode_rewards := deque_append (window_size d) (episode_rewards d) reward,
             episode_successes := deque_append (window_size d) (episode_successes d) success,
             episode_lengths := deque_append (window_size d) (episode_lengths d) len,
             current_conditions := (if truthy_str conditions then the conditions else current_conditions d),
             failure_counts :=
               (if \<not> success \<and> truthy_str conditions
                then (\<lambda>k. if str_in k (lower (the conditions))
                          then map_option (\<lambda>n. n + count_list (categories d) k) (failure_counts d k)
                          else failure_counts d k)
                else failure_counts d) \<rparr>"
  have r: "record_episode d reward success len conditions = Inr ?d'"
    by (rule record_episode_result[OF wf])
  have w: "0 < window_size d \<longrightarrow>
           last (episode_rewards ?d') = reward \<and> last (episode_successes ?d') = success
           \<and> last (episode_lengths ?d') = len"
    by (simp add: deque_append_last)
  have t: "\<forall>cat. failure_counts ?d' cat =
           (if \<not> success \<and> (case conditions of None \<Rightarrow> False
                                | Some c \<Rightarrow> c \<noteq> [] \<and> str_in cat (lower c))
            then map_option (\<lambda>n. n + count_list (categories d) cat) (failure_counts d cat)
            else failure_counts d cat)"
    by (cases conditions) simp_all
  have u: "distinct (categories d) \<longrightarrow>
           (\<forall>cat \<in> set (categories d). failure_counts ?d' cat =
             (if \<not> success \<and> (case conditions of None \<Rightarrow> False
                                  | Some c \<Rightarrow> c \<noteq> [] \<and> str_in cat (lower c))
              then map_option (\<lambda>n. n + 1) (failure_counts d cat)
              else failure_counts d cat))"
    by (cases conditions) (simp_all add: count_list_distinct)
  show ?thesis
    using r w t u by simp
qed

text \<open>
  The label \<open>harsh overhead lighting\<close> on a failed episode, with the categories lighting
  and occlusion, increments lighting only.
\<close>

lemma record_episode_tally_example:
  "tally_wf lighting_occlusion \<and> distinct (categories lighting_occlusion)
   \<and> 0 < window_size lighting_occlusion
   \<and> (\<exists>d'. record_episode lighting_occlusion 0 False 7 (Some ''harsh overhead lighting'') = Inr d'
        \<and> episode_successes d' = [False]
        \<and> failure_counts d' ''lighting'' = Some 1
        \<and> failure_counts d' ''occlusion'' = Some 0)"
proof -
  have wf: "tally_wf lighting_occlusion"
    unfolding lighting_occlusion_def by (rule tally_wf_init)
  have cats: "categories lighting_occlusion = [''lighting'', ''occlusion'']"
    by (simp add: lighting_occlusion_def FailureDetector_init_def)
  have ws: "window_size lighting_occlusion = 10"
    by (simp add: lighting_occlusion_def FailureDetector_init_def)
  have es: "episode_successes lighting_occlusion = []"
    by (simp add: lighting_occlusion_def FailureDetector_init_def)
  have fc: "failure_counts lighting_occlusion ''lighting'' = Some 0"
           "failure_counts lighting_occlusion ''occlusion'' = Some 0"
    by (simp_all add: lighting_occlusion_def FailureDetector_init_def)
  have m1: "str_in ''lighting'' (lower ''harsh overhead lighting'')"
    by (simp add: lower_def lower_char_def)
  have m2: "\<not> str_in ''occlusion'' (lower ''harsh overhead lighting'')"
    by (simp add: lower_def lower_char_def)
  from record_episode_tally[OF wf, of 0 False 7 "Some ''harsh overhead lighting''"]
  obtain d' where d': "record_episode lighting_occlusion 0 False 7 (Some ''harsh overhead lighting'') = Inr d'"
    and s: "episode_successes d' = deque_append (window_size lighting_occlusion) (episode_successes lighting_occlusion) False"
    and t: "distinct (categories lighting_occlusion) \<longrightarrow>
           (\<forall>cat \<in> set (categories lighting_occlusion). failure_counts d' cat =
             (if \<not> False \<and> (case Some ''harsh overhead lighting'' of None \<Rightarrow> False
                                  | Some c \<Rightarrow> c \<noteq> [] \<and> str_in cat (lower c))
              then map_option (\<lambda>n. n + 1) (failure_counts lighting_occlusion cat)
              else failure_counts lighting_occlusion cat))"
    by blast
  have "episode_successes d' = [False]"
    using s by (simp add: ws es deque_append_def)
  moreover have "failure_counts d' ''lighting'' = Some 1"
    using t m1 fc by (simp add: cats)
  moreover have "failure_counts d' ''occlusion'' = Some 0"
    using t m2 fc by (simp add: cats)
  ultimately show ?thesis using wf d' by (simp add: cats ws)
qed


section \<open>Facts about the judge\<close>

lemma py_split_from_nonempty: "py_split_from sep acc s \<noteq> []"
  by (induction sep acc s rule: py_split_from.induct) auto

lemma py_split_from_two:
  "sep \<noteq> [] \<Longrightarrow> str_in sep s \<Longrightarrow> 2 \<le> length (py_split_from sep acc s)"
proof (induction sep acc s rule: py_split_from.induct)
  case (1 sep acc)
  then show ?case by simp
next
  case (2 sep acc c cs)
  show ?case
  proof (cases "prefix sep (c # cs)")
    case True
    have "py_split_from sep [] (drop (length sep) (c # cs)) \<noteq> []"
      by (rule py_split_from_nonempty)
    then have "1 \<le> length (py_split_from sep [] (drop (length sep) (c # cs)))"
      by (cases "py_split_from sep [] (drop (length sep) (c # cs))") auto
    with True 2(3) show ?thesis by simp
  next
    case False
    with 2(4) have "str_in sep cs" by simp
    with 2(2)[OF _ 2(3)] False show ?thesis by simp
  qed
qed

lemma extract_json_text_total: "\<exists>txt. extract_json_text t = Inr txt"
proof -
  have a: "\<exists>x. py_index (py_split sep s) 0 = Inr x" for sep s
    using py_split_from_nonempty[of sep "[]" s]
    by (cases "py_split_from sep [] s") (auto simp: py_index_def py_split_def)
  have b: "\<exists>x. py_index (py_split sep s) 1 = Inr x" if "sep \<noteq> []" "str_in sep s" for sep s
    using py_split_from_two[OF that, of "[]"] by (auto simp: py_index_def py_split_def)
  show ?thesis
  proof (cases "str_in ''```json'' t")
    case True
    from b[OF _ True] obtain x where "py_index (py_split ''```json'' t) 1 = Inr x" by auto
    with a[of "''```''" x] True show ?thesis
      by (auto simp: extract_json_text_def try_bind_def)
  next
    case False
    show ?thesis
    proof (cases "str_in ''```'' t")
      case True
      from b[OF _ True] obtain x where "py_index (py_split ''```'' t) 1 = Inr x" by auto
      with a[of "''```''" x] True False show ?thesis
        by (auto simp: extract_json_text_def try_bind_def)
    next
      case F2: False
      with False show ?thesis by (simp add: extract_json_text_def)
    qed
  qed
qed

lemma evaluate_try_parsed_None:
  "parsed_reply loads out = None \<Longrightarrow> \<exists>e. evaluate_try loads now j out = Inl e"
  by (auto simp: parsed_reply_def evaluate_try_def try_bind_def
      split: service_outcome.splits option.splits sum.splits)

lemma evaluate_try_parsed_Some:
  "parsed_reply loads out = Some v \<Longrightarrow>
   evaluate_try loads now j out =
     try_bind (dict_get v ''difficulty_adjustment'' (JNum 0)) (\<lambda>adj.
     try_bind (float_add (difficulty j) adj) (\<lambda>s.
     let j1 = j\<lparr> difficulty := max (1/10) (min 1 s) \<rparr> in
     try_bind (dict_get v ''observation'' (JStr '''')) (\<lambda>obs.
     try_bind (dict_get v ''failure_mode'' JNull) (\<lambda>fm.
     try_bind (dict_get v ''reasoning'' (JStr '''')) (\<lambda>rs.
     try_bind (dict_get v ''curriculum_prompt'' JNull) (\<lambda>cp.
     let judgment = \<lparr> timestamp = now, observation = obs, failure_mode = fm,
                      reasoning = rs, curriculum_prompt = cp,
                      difficulty_level = difficulty j1 \<rparr>
     in Inr (judgment,
             j1\<lparr> evaluation_history := evaluation_history j1 @ [judgment] \<rparr>)))))))"
  by (auto simp: parsed_reply_def evaluate_try_def try_bind_def
      split: service_outcome.splits option.splits sum.splits)

lemma evaluate_performance_fails:
  assumes "reply_fails loads out"
  shows "\<exists>e. evaluate_performance loads now j out = (fallback_judgment now j e, j)"
proof (cases "parsed_reply loads out")
  case None
  from evaluate_try_parsed_None[OF this, of now j] show ?thesis
    by (auto simp: evaluate_performance_def)
next
  case (Some v)
  have "\<exists>e. evaluate_try loads now j out = Inl e"
  proof (cases v)
    case (JObj kv)
    with assms Some obtain a where a: "map_of kv ''difficulty_adjustment'' = Some a" "\<not> addable a"
      by (auto simp: reply_fails_def split: option.splits)
    then have "float_add (difficulty j) a = Inl TypeError" by (cases a) auto
    with a JObj show ?thesis
      by (simp add: evaluate_try_parsed_Some[OF Some] try_bind_def)
  qed (simp_all add: evaluate_try_parsed_Some[OF Some] try_bind_def)
  then show ?thesis by (auto simp: evaluate_performance_def)
qed

lemma evaluate_performance_normal:
  assumes "\<not> reply_fails loads out"
  shows "\<exists>kv. parsed_reply loads out = Some (JObj kv)
     \<and> evaluate_performance loads now j out =
         (normal_judgment now j kv,
          j\<lparr> difficulty := max (1/10) (min 1 (difficulty j + adjustment kv)),
             evaluation_history := evaluation_history j @ [normal_judgment now j kv] \<rparr>)"
proof -
  from assms obtain kv where p: "parsed_reply loads out = Some (JObj kv)"
    and a: "case map_of kv ''difficulty_adjustment'' of None \<Rightarrow> True | Some v \<Rightarrow> addable v"
    by (auto simp: reply_fails_def split: option.splits json.splits)
  have f: "float_add (difficulty j)
             (case map_of kv ''difficulty_adjustment'' of Some v \<Rightarrow> v | None \<Rightarrow> JNum 0)
           = Inr (difficulty j + adjustment kv)"
  proof (cases "map_of kv ''difficulty_adjustment''")
    case None
    then show ?thesis by (simp add: adjustment_def)
  next
    case (Some v)
    with a have "addable v" by simp
    then show ?thesis using Some by (cases v) (simp_all add: adjustment_def)
  qed
  have "evaluate_try loads now j out =
         Inr (normal_judgment now j kv,
          j\<lparr> difficulty := max (1/10) (min 1 (difficulty j + adjustment kv)),
             evaluation_history := evaluation_history j @ [normal_judgment now j kv] \<rparr>)"
    by (simp add: evaluate_try_parsed_Some[OF p] try_bind_def f Let_def normal_judgment_def field_def)
  with p show ?thesis by (simp add: evaluate_performance_def)
qed

lemma reply_fails_service: "reply_fails loads (ServiceRaises m)" "reply_fails loads (ServiceContent None)"
  by (simp_all add: reply_fails_def parsed_reply_def)

lemma reply_fails_unparsable:
  "extract_json_text t = Inr txt \<Longrightarrow> loads (strip txt) = Inl e \<Longrightarrow>
   reply_fails loads (ServiceContent (Some t))"
  by (simp add: reply_fails_def parsed_reply_def)

lemma clamp_range:
  "1/10 \<le> max (1/10) (min 1 (s::real))" "max (1/10) (min 1 (s::real)) \<le> 1"
  by (simp_all add: max_def min_def)

lemma evaluate_performance_range:
  assumes "1/10 \<le> difficulty j" "difficulty j \<le> 1"
  shows "1/10 \<le> difficulty (snd (evaluate_performance loads now j out))
       \<and> difficulty (snd (evaluate_performance loads now j out)) \<le> 1
       \<and> 1/10 \<le> difficulty_level (fst (evaluate_performance loads now j out))
       \<and> difficulty_level (fst (evaluate_performance loads now j out)) \<le> 1"
proof (cases "reply_fails loads out")
  case True
  from evaluate_performance_fails[OF True, of now j] assms show ?thesis
    by (auto simp: fallback_judgment_def)
next
  case False
  from evaluate_performance_normal[OF False, of now j] obtain kv where
    "evaluate_performance loads now j out =
         (normal_judgment now j kv,
          j\<lparr> difficulty := max (1/10) (min 1 (difficulty j + adjustment kv)),
             evaluation_history := evaluation_history j @ [normal_judgment now j kv] \<rparr>)"
    by blast
  then show ?thesis
    using clamp_range[of "difficulty j + adjustment kv"]
    by (simp add: normal_judgment_def del: max_less_iff_conj min_less_iff_conj)
qed

lemma evaluate_all_range:
  "1/10 \<le> difficulty j \<Longrightarrow> difficulty j \<le> 1 \<Longrightarrow>
   1/10 \<le> difficulty (evaluate_all loads j calls) \<and> difficulty (evaluate_all loads j calls) \<le> 1"
proof (induction calls arbitrary: j)
  case Nil
  then show ?case by simp
next
  case (Cons c calls)
  obtain now out where c: "c = (now, out)" by (cases c) auto
  from evaluate_performance_range[OF Cons.prems, of loads now out]
  have "1/10 \<le> difficulty (snd (evaluate_performance loads now j out))"
       "difficulty (snd (evaluate_performance loads now j out)) \<le> 1" by auto
  from Cons.IH[OF this] show ?case by (simp add: c)
qed

lemma evaluate_all_snoc:
  "evaluate_all loads j (calls @ [(now, out)]) =
     snd (evaluate_performance loads now (evaluate_all loads j calls) out)"
  by (induction calls arbitrary: j) auto

lemma parsed_minus_03:
  "parsed_reply sample_loads (ServiceContent (Some reply_minus_03))
     = Some (JObj [(''difficulty_adjustment'', JNum (- (3/10)))])"
  by (simp add: parsed_reply_def reply_minus_03_def extract_json_text_def sample_loads_def
      loads_table_def strip_def is_space_def)

lemma parsed_plus_01:
  "parsed_reply sample_loads (ServiceContent (Some reply_plus_01))
     = Some (JObj [(''difficulty_adjustment'', JNum (1/10))])"
  by (simp add: parsed_reply_def reply_plus_01_def extract_json_text_def sample_loads_def
      loads_table_def strip_def is_space_def py_split_def py_index_def try_bind_def)

lemma parsed_empty_object:
  "parsed_reply sample_loads (ServiceContent (Some reply_empty_object)) = Some (JObj [])"
  by (simp add: parsed_reply_def reply_empty_object_def extract_json_text_def sample_loads_def
      loads_table_def strip_def is_space_def)

lemma parsed_observation_only:
  "parsed_reply sample_loads (ServiceContent (Some reply_observation_only))
     = Some (JObj [(''observation'', JStr ''arm stalls near the cube'')])"
  by (simp add: parsed_reply_def reply_observation_only_def extract_json_text_def sample_loads_def
      loads_table_def strip_def is_space_def)

lemma evaluate_performance_object:
  assumes p: "parsed_reply loads out = Some (JObj kv)"
    and a: "case map_of kv ''difficulty_adjustment'' of None \<Rightarrow> True | Some v \<Rightarrow> addable v"
  shows "evaluate_performance loads now j out =
         (normal_judgment now j kv,
          j\<lparr> difficulty := max (1/10) (min 1 (difficulty j + adjustment kv)),
             evaluation_history := evaluation_history j @ [normal_judgment now j kv] \<rparr>)"
proof -
  have "\<not> reply_fails loads out"
    using p a by (auto simp: reply_fails_def split: option.splits)
  from evaluate_performance_normal[OF this, of now j] p show ?thesis by auto
qed


section \<open>Facts about the frame buffer\<close>

lemma on_frame_not_full:
  "0 < maxsize b \<Longrightarrow> length (frame_queue b) < maxsize b \<Longrightarrow>
   on_frame b f = b\<lparr> latest_frame := Some f, frame_queue := frame_queue b @ [f] \<rparr>"
  by (simp add: on_frame_def put_nowait_def)

lemma on_frame_full:
  "0 < maxsize b \<Longrightarrow> length (frame_queue b) = maxsize b \<Longrightarrow>
   on_frame b f = b\<lparr> latest_frame := Some f, frame_queue := tl (frame_queue b) @ [f],
                     evictions := evictions b + 1 \<rparr>"
  by (cases "frame_queue b") (auto simp: on_frame_def put_nowait_def get_nowait_def)

lemma on_frame_maxsize: "maxsize (on_frame b f) = maxsize b"
  by (auto simp: on_frame_def Let_def split: sum.splits prod.splits)

lemma push_frames_general:
  "0 < maxsize b \<Longrightarrow> length (frame_queue b) \<le> maxsize b \<Longrightarrow>
   frame_queue (push_frames b fs)
     = drop (length (frame_queue b) + length fs - maxsize b) (frame_queue b @ fs)
   \<and> evictions (push_frames b fs)
     = evictions b + (length (frame_queue b) + length fs - maxsize b)
   \<and> maxsize (push_frames b fs) = maxsize b"
proof (induction fs arbitrary: b)
  case Nil
  then show ?case by simp
next
  case (Cons f fs)
  show ?case
  proof (cases "length (frame_queue b) < maxsize b")
    case True
    let ?b = "on_frame b f"
    have s: "?b = b\<lparr> latest_frame := Some f, frame_queue := frame_queue b @ [f] \<rparr>"
      using Cons.prems(1) True by (rule on_frame_not_full)
    have "0 < maxsize ?b" "length (frame_queue ?b) \<le> maxsize ?b"
      using Cons.prems True by (simp_all add: s)
    from Cons.IH[OF this] show ?thesis by (simp add: s)
  next
    case False
    with Cons.prems have full: "length (frame_queue b) = maxsize b" by simp
    let ?b = "on_frame b f"
    have s: "?b = b\<lparr> latest_frame := Some f, frame_queue := tl (frame_queue b) @ [f],
                     evictions := evictions b + 1 \<rparr>"
      using Cons.prems(1) full by (rule on_frame_full)
    have ne: "frame_queue b \<noteq> []" using full Cons.prems(1) by auto
    have fq: "frame_queue ?b = tl (frame_queue b) @ [f]"
      and ev: "evictions ?b = evictions b + 1"
      and mx: "maxsize ?b = maxsize b"
      by (simp_all add: s)
    have len: "length (frame_queue ?b) = maxsize b"
      using full ne Cons.prems(1) by (simp add: fq)
    have "0 < maxsize ?b" "length (frame_queue ?b) \<le> maxsize ?b"
      using Cons.prems(1) len mx by simp_all
    from Cons.IH[OF this]
    have ih: "frame_queue (push_frames ?b fs)
               = drop (length (frame_queue ?b) + length fs - maxsize ?b) (frame_queue ?b @ fs)"
         "evictions (push_frames ?b fs)
               = evictions ?b + (length (frame_queue ?b) + length fs - maxsize ?b)"
         "maxsize (push_frames ?b fs) = maxsize ?b"
      by simp_all
    have "frame_queue (push_frames b (f # fs)) = frame_queue (push_frames ?b fs)"
      by simp
    also have "\<dots> = drop (length fs) (frame_queue ?b @ fs)"
      by (simp only: ih(1) len mx add_diff_cancel_left')
    also have "frame_queue ?b @ fs = tl (frame_queue b @ f # fs)"
      using ne by (simp add: fq)
    also have "drop (length fs) (tl (frame_queue b @ f # fs))
                 = drop (Suc (length fs)) (frame_queue b @ f # fs)"
      by (simp only: drop_Suc)
    finally have a: "frame_queue (push_frames b (f # fs))
           = drop (length (frame_queue b) + length (f # fs) - maxsize b) (frame_queue b @ f # fs)"
      using full by simp
    have "evictions (push_frames b (f # fs)) = evictions (push_frames ?b fs)"
      by simp
    also have "\<dots> = evictions b + 1 + length fs"
      by (simp only: ih(2) len mx ev add_diff_cancel_left')
    finally have b: "evictions (push_frames b (f # fs))
           = evictions b + (length (frame_queue b) + length (f # fs) - maxsize b)"
      using full by simp
    have "maxsize (push_frames b (f # fs)) = maxsize (push_frames ?b fs)"
      by simp
    then have c: "maxsize (push_frames b (f # fs)) = maxsize b"
      by (simp only: ih(3) mx)
    from a b c show ?thesis by simp
  qed
qed


section \<open>Facts about the transports and the adaptation loop\<close>

lemma client_interact_no_stream:
  "\<not> truthy_str (current_stream_id c) \<Longrightarrow>
   client_interact c prompt = Inl (RuntimeError ''No active stream to interact with'')"
  by (simp add: client_interact_def)

lemma client_interact_streaming:
  "current_stream_id c = Some sid \<Longrightarrow> sid \<noteq> [] \<Longrightarrow> ws c = Some sent \<Longrightarrow>
   client_interact c prompt = Inr (c\<lparr> ws := Some (sent @ [Interact prompt sid]) \<rparr>)"
  by (simp add: client_interact_def)

lemma failed_step:
  assumes "tally_wf (failure_detector cb)" "adaptation_frequency cb \<noteq> 0"
    "current_episode_reward cb = 0"
  shows "\<exists>d. record_episode (failure_detector cb) 0 False (current_episode_length cb + 1)
                (Some (case env_conditions cb of None \<Rightarrow> ''neutral'' | Some c \<Rightarrow> c)) = Inr d
     \<and> tally_wf d \<and> window_size d = window_size (failure_detector cb)
     \<and> min_success_rate d = min_success_rate (failure_detector cb)
     \<and> episode_successes d
          = deque_append (window_size (failure_detector cb)) (episode_successes (failure_detector cb)) False
     \<and> on_step cb 0 True outcome =
         Inr ((if int (length (episode_successes d)) mod adaptation_frequency cb = 0 \<and> should_adapt d
               then adapt_curriculum (cb\<lparr> current_episode_reward := 0,
                        current_episode_length := current_episode_length cb + 1,
                        failure_detector := d,
                        episodes_completed := episodes_completed cb + 1 \<rparr>) outcome
               else cb\<lparr> current_episode_reward := 0,
                        current_episode_length := current_episode_length cb + 1,
                        failure_detector := d,
                        episodes_completed := episodes_completed cb + 1 \<rparr>)
              \<lparr> current_episode_reward := 0, current_episode_length := 0 \<rparr>)"
proof -
  from record_episode_wf[OF assms(1), of 0 False "current_episode_length cb + 1"
      "Some (case env_conditions cb of None \<Rightarrow> ''neutral'' | Some c \<Rightarrow> c)"]
  obtain d where d: "record_episode (failure_detector cb) 0 False (current_episode_length cb + 1)
                (Some (case env_conditions cb of None \<Rightarrow> ''neutral'' | Some c \<Rightarrow> c)) = Inr d"
     "tally_wf d" "window_size d = window_size (failure_detector cb)"
     "min_success_rate d = min_success_rate (failure_detector cb)"
     "episode_successes d
          = deque_append (window_size (failure_detector cb)) (episode_successes (failure_detector cb)) False"
    by blast
  show ?thesis
    using d assms(2,3) by (simp add: on_step_def Let_def try_bind_def)
qed

lemma deque_append_failures:
  assumes "n \<le> w" "0 < w"
  shows "deque_append w (replicate n False) False = replicate (min w (Suc n)) False"
proof (cases "n = w")
  case True
  from assms(2) obtain k where wk: "w = Suc k" by (cases w) auto
  with True have nk: "n = Suc k" by simp
  have "replicate k False @ [False] = replicate (Suc k) False"
    by (simp add: replicate_append_same)
  then show ?thesis unfolding nk wk by (simp add: deque_append_def)
next
  case False
  with assms(1) have lt: "n < w" by simp
  then have mn: "min w (Suc n) = Suc n" by simp
  have "replicate n False @ [False] = replicate (Suc n) False"
    by (simp add: replicate_append_same)
  then show ?thesis using lt unfolding mn by (simp add: deque_append_def)
qed

lemma adapt_curriculum_fields:
  "failure_detector (adapt_curriculum cb outcome) = failure_detector cb"
  "adaptation_frequency (adapt_curriculum cb outcome) = adaptation_frequency cb"
  "current_episode_reward (adapt_curriculum cb outcome) = current_episode_reward cb"
  "current_episode_length (adapt_curriculum cb outcome) = current_episode_length cb"
  "episodes_completed (adapt_curriculum cb outcome) = episodes_completed cb"
  "controller_calls (adapt_curriculum cb outcome) = controller_calls cb @ [episodes_completed cb]"
  by (cases outcome; simp add: adapt_curriculum_def Let_def)+

lemma small_step:
  assumes wf: "tally_wf (failure_detector cb)"
    and fr: "adaptation_frequency cb = 2"
    and rw: "current_episode_reward cb = 0"
    and w: "window_size (failure_detector cb) = 4"
    and m: "min_success_rate (failure_detector cb) = 3/10"
    and es: "episode_successes (failure_detector cb) = replicate n False"
    and n: "n \<le> 4"
  shows "\<exists>cb'. on_step cb 0 True outcome = Inr cb'
     \<and> tally_wf (failure_detector cb') \<and> adaptation_frequency cb' = 2
     \<and> current_episode_reward cb' = 0
     \<and> window_size (failure_detector cb') = 4
     \<and> min_success_rate (failure_detector cb') = 3/10
     \<and> episode_successes (failure_detector cb') = replicate (min 4 (Suc n)) False
     \<and> episodes_completed cb' = episodes_completed cb + 1
     \<and> controller_calls cb' =
          (if even (min 4 (Suc n)) \<and> 2 \<le> min 4 (Suc n)
           then controller_calls cb @ [episodes_completed cb + 1]
           else controller_calls cb)"
proof -
  have f0: "adaptation_frequency cb \<noteq> 0" using fr by simp
  from failed_step[OF wf f0 rw, of outcome] obtain d where
    d: "tally_wf d" "window_size d = window_size (failure_detector cb)"
       "min_success_rate d = min_success_rate (failure_detector cb)"
       "episode_successes d
          = deque_append (window_size (failure_detector cb)) (episode_successes (failure_detector cb)) False"
    and st: "on_step cb 0 True outcome =
         Inr ((if int (length (episode_successes d)) mod adaptation_frequency cb = 0 \<and> should_adapt d
               then adapt_curriculum (cb\<lparr> current_episode_reward := 0,
                        current_episode_length := current_episode_length cb + 1,
                        failure_detector := d,
                        episodes_completed := episodes_completed cb + 1 \<rparr>) outcome
               else cb\<lparr> current_episode_reward := 0,
                        current_episode_length := current_episode_length cb + 1,
                        failure_detector := d,
                        episodes_completed := episodes_completed cb + 1 \<rparr>)
              \<lparr> current_episode_reward := 0, current_episode_length := 0 \<rparr>)"
    by blast
  define k where "k = min 4 (Suc n)"
  have esd: "episode_successes d = replicate k False"
    using d(4) n by (simp add: w es deque_append_failures k_def)
  have "\<forall>b \<in> set (episode_successes d). \<not> b" by (simp add: esd)
  moreover have "0 < min_success_rate d" by (simp add: d(3) m)
  ultimately have sa: "should_adapt d \<longleftrightarrow> window_size d div 2 \<le> length (episode_successes d)"
    by (rule should_adapt_all_failures)
  have sa2: "should_adapt d \<longleftrightarrow> 2 \<le> k"
    using sa by (simp add: d(2) w esd)
  have "int k mod 2 = 0 \<longleftrightarrow> even k"
    by presburger
  then have md: "int (length (episode_successes d)) mod adaptation_frequency cb = 0 \<longleftrightarrow> even k"
    by (simp add: esd fr)
  have goal: "\<exists>cb'. on_step cb 0 True outcome = Inr cb'
     \<and> tally_wf (failure_detector cb') \<and> adaptation_frequency cb' = 2
     \<and> current_episode_reward cb' = 0
     \<and> window_size (failure_detector cb') = 4
     \<and> min_success_rate (failure_detector cb') = 3/10
     \<and> episode_successes (failure_detector cb') = replicate k False
     \<and> episodes_completed cb' = episodes_completed cb + 1
     \<and> controller_calls cb' =
          (if even k \<and> 2 \<le> k
           then controller_calls cb @ [episodes_completed cb + 1]
           else controller_calls cb)"
  proof (cases "even k \<and> 2 \<le> k")
    case True
    then have c: "int (length (episode_successes d)) mod adaptation_frequency cb = 0 \<and> should_adapt d"
      using md sa2 by simp
    have st': "on_step cb 0 True outcome =
         Inr ((adapt_curriculum (cb\<lparr> current_episode_reward := 0,
                        current_episode_length := current_episode_length cb + 1,
                        failure_detector := d,
                        episodes_completed := episodes_completed cb + 1 \<rparr>) outcome)
              \<lparr> current_episode_reward := 0, current_episode_length := 0 \<rparr>)"
      using st c by simp
    show ?thesis
      using True d(1) esd
      by (simp add: st' adapt_curriculum_fields fr d(2) d(3) w m)
  next
    case False
    then have c: "\<not> (int (length (episode_successes d)) mod adaptation_frequency cb = 0 \<and> should_adapt d)"
      using md sa2 by simp
    have st': "on_step cb 0 True outcome =
         Inr (cb\<lparr> current_episode_reward := 0,
                        current_episode_length := current_episode_length cb + 1,
                        failure_detector := d,
                        episodes_completed := episodes_completed cb + 1 \<rparr>
              \<lparr> current_episode_reward := 0, current_episode_length := 0 \<rparr>)"
      using st c by simp
    show ?thesis
      using False d(1) esd
      by (simp add: st' fr d(2) d(3) w m)
  qed
  then show ?thesis unfolding k_def .
qed


section \<open>The claims\<close>

subsection \<open>C1: the fallback judgment\<close>

text \<open>
  Claim C1, as the code has it. The fallback is what the handler of the \<open>try\<close> block
  returns, so it is returned exactly when the block raises (\<open>reply_fails\<close>): when the
  service call raises, when the reply has no text, when \<open>json.loads\<close> rejects the text
  left after the code fence is removed, when the loaded value is not a dict, and when
  its \<open>difficulty_adjustment\<close> cannot be added to a float. In each of these cases
  \<open>evaluate_performance\<close> returns a \<open>JudgmentResult\<close> whose \<open>failure_mode\<close> is
  \<open>llm_evaluation_error\<close>, whose \<open>curriculum_prompt\<close> is \<open>None\<close> and whose
  \<open>difficulty_level\<close> is the difficulty from before the call; the judge is left exactly
  as it was, so every later call behaves as if the failed one had not been made. A reply
  that loads to a dict lacking some of the five fields is not among these cases.
\<close>

theorem evaluate_performance_fallback:
  "reply_fails loads (ServiceRaises m)
   \<and> reply_fails loads (ServiceContent None)
   \<and> (\<forall>t txt e. extract_json_text t = Inr txt \<and> loads (strip txt) = Inl e \<longrightarrow>
         reply_fails loads (ServiceContent (Some t)))
   \<and> (\<forall>v. parsed_reply loads out = Some v \<and> (\<forall>kv. v \<noteq> JObj kv) \<longrightarrow>
         reply_fails loads out)
   \<and> (\<forall>kv a. parsed_reply loads out = Some (JObj kv)
           \<and> map_of kv ''difficulty_adjustment'' = Some a \<and> \<not> addable a \<longrightarrow>
         reply_fails loads out)
   \<and> (reply_fails loads out \<longrightarrow>
        (\<exists>r. evaluate_performance loads now j out = (r, j)
           \<and> failure_mode r = JStr ''llm_evaluation_error''
           \<and> curriculum_prompt r = JNull
           \<and> difficulty_level r = difficulty j
           \<and> evaluate_all loads j ((now, out) # rest) = evaluate_all loads j rest))"
proof -
  have "\<exists>r. evaluate_performance loads now j out = (r, j)
           \<and> failure_mode r = JStr ''llm_evaluation_error''
           \<and> curriculum_prompt r = JNull
           \<and> difficulty_level r = difficulty j
           \<and> evaluate_all loads j ((now, out) # rest) = evaluate_all loads j rest"
    if "reply_fails loads out"
  proof -
    from evaluate_performance_fails[OF that, of now j] obtain e where
      "evaluate_performance loads now j out = (fallback_judgment now j e, j)" by blast
    then show ?thesis by (simp add: fallback_judgment_def)
  qed
  moreover have "\<forall>v. parsed_reply loads out = Some v \<and> (\<forall>kv. v \<noteq> JObj kv) \<longrightarrow>
         reply_fails loads out"
    by (auto simp: reply_fails_def split: json.splits)
  moreover have "\<forall>kv a. parsed_reply loads out = Some (JObj kv)
           \<and> map_of kv ''difficulty_adjustment'' = Some a \<and> \<not> addable a \<longrightarrow>
         reply_fails loads out"
    by (auto simp: reply_fails_def)
  ultimately show ?thesis
    using reply_fails_service reply_fails_unparsable by blast
qed

text \<open>A reply that is prose, not JSON, on a fresh judge.\<close>

theorem evaluate_performance_fallback_witness:
  "extract_json_text ''I cannot judge this run.'' = Inr ''I cannot judge this run.''
   \<and> reject_all (strip ''I cannot judge this run.'') = Inl (JSONDecodeError ''I cannot judge this run.'')
   \<and> snd (evaluate_performance reject_all 7 (LLMJudge_init (1/10))
            (ServiceContent (Some ''I cannot judge this run.''))) = LLMJudge_init (1/10)
   \<and> failure_mode (fst (evaluate_performance reject_all 7 (LLMJudge_init (1/10))
            (ServiceContent (Some ''I cannot judge this run.'')))) = JStr ''llm_evaluation_error''
   \<and> curriculum_prompt (fst (evaluate_performance reject_all 7 (LLMJudge_init (1/10))
            (ServiceContent (Some ''I cannot judge this run.'')))) = JNull
   \<and> difficulty_level (fst (evaluate_performance reject_all 7 (LLMJudge_init (1/10))
            (ServiceContent (Some ''I cannot judge this run.'')))) = 3/10"
proof -
  have x: "extract_json_text ''I cannot judge this run.'' = Inr ''I cannot judge this run.''"
    by (simp add: extract_json_text_def)
  have l: "reject_all (strip ''I cannot judge this run.'') = Inl (JSONDecodeError ''I cannot judge this run.'')"
    by (simp add: reject_all_def loads_table_def strip_def is_space_def)
  have d: "difficulty (LLMJudge_init (1/10)) = 3/10" by (simp add: LLMJudge_init_def)
  from evaluate_performance_fallback[of reject_all "''''" "ServiceContent (Some ''I cannot judge this run.'')"
      7 "LLMJudge_init (1/10)" "[]"] x l
  have "\<exists>r. evaluate_performance reject_all 7 (LLMJudge_init (1/10))
            (ServiceContent (Some ''I cannot judge this run.'')) = (r, LLMJudge_init (1/10))
           \<and> failure_mode r = JStr ''llm_evaluation_error''
           \<and> curriculum_prompt r = JNull
           \<and> difficulty_level r = difficulty (LLMJudge_init (1/10))"
    by blast
  then show ?thesis using x l d by auto
qed

text \<open>
  A reply that carries a delta and none of the other four fields does not have the
  expected structure, and is not answered by the fallback: on a fresh judge the returned
  \<open>failure_mode\<close> is \<open>None\<close>, the difficulty moves from 0.3 to 0.1 and the judgment is
  appended to the history.
\<close>

theorem fallback_not_taken_counterexample:
  "parsed_reply sample_loads (ServiceContent (Some reply_minus_03))
     = Some (JObj [(''difficulty_adjustment'', JNum (- (3/10)))])
   \<and> difficulty (LLMJudge_init (1/10)) = 3/10
   \<and> failure_mode (fst (evaluate_performance sample_loads 5 (LLMJudge_init (1/10))
        (ServiceContent (Some reply_minus_03)))) = JNull
   \<and> difficulty_level (fst (evaluate_performance sample_loads 5 (LLMJudge_init (1/10))
        (ServiceContent (Some reply_minus_03)))) = 1/10
   \<and> difficulty (snd (evaluate_performance sample_loads 5 (LLMJudge_init (1/10))
        (ServiceContent (Some reply_minus_03)))) = 1/10
   \<and> length (evaluation_history (snd (evaluate_performance sample_loads 5 (LLMJudge_init (1/10))
        (ServiceContent (Some reply_minus_03))))) = 1"
proof -
  have a: "case map_of [(''difficulty_adjustment'', JNum (- (3/10)))] ''difficulty_adjustment'' of
             None \<Rightarrow> True | Some v \<Rightarrow> addable v" by simp
  show ?thesis
    by (simp add: parsed_minus_03 evaluate_performance_object[OF parsed_minus_03 a]
        normal_judgment_def field_def adjustment_def LLMJudge_init_def)
qed


subsection \<open>C2: when should\_adapt fires\<close>

text \<open>
  Claim C2. For every state of the detector, and so after every sequence of recorded
  episodes: \<open>should_adapt\<close> is false while the number of recorded episodes is strictly
  below \<open>window_size div 2\<close>; otherwise it is true exactly when the rolling success
  rate, the number of successes divided by the number of recorded episodes, is strictly
  below \<open>min_success_rate\<close> (with no episode at all the rate is the guarded value 0).
  With \<open>window_size = 10\<close> and the default threshold 0.3, recording any five failed
  episodes on a fresh detector makes \<open>should_adapt\<close> true, and any four leave it false.
\<close>

theorem should_adapt_rule:
  "(length (episode_successes d) < window_size d div 2 \<longrightarrow> \<not> should_adapt d)
   \<and> (window_size d div 2 \<le> length (episode_successes d) \<and> 0 < length (episode_successes d) \<longrightarrow>
        (should_adapt d \<longleftrightarrow>
           real (length (filter (\<lambda>b. b) (episode_successes d))) / real (length (episode_successes d))
             < min_success_rate d))
   \<and> (window_size d div 2 \<le> length (episode_successes d) \<and> length (episode_successes d) = 0 \<longrightarrow>
        (should_adapt d \<longleftrightarrow> 0 < min_success_rate d))
   \<and> (\<forall>eps cats. length eps = 5 \<and> (\<forall>e \<in> set eps. \<not> fst (snd e)) \<longrightarrow>
        (\<exists>d'. record_episodes (FailureDetector_init 10 (3/10) cats) eps = Inr d' \<and> should_adapt d'))
   \<and> (\<forall>eps cats. length eps = 4 \<and> (\<forall>e \<in> set eps. \<not> fst (snd e)) \<longrightarrow>
        (\<exists>d'. record_episodes (FailureDetector_init 10 (3/10) cats) eps = Inr d' \<and> \<not> should_adapt d'))"
proof -
  have a: "length (episode_successes d) < window_size d div 2 \<longrightarrow> \<not> should_adapt d"
    by (simp add: should_adapt_def)
  have b: "window_size d div 2 \<le> length (episode_successes d) \<and> 0 < length (episode_successes d) \<longrightarrow>
        (should_adapt d \<longleftrightarrow>
           real (length (filter (\<lambda>b. b) (episode_successes d))) / real (length (episode_successes d))
             < min_success_rate d)"
    by (auto simp: should_adapt_def get_success_rate_def sum_list_of_bool)
  have c: "window_size d div 2 \<le> length (episode_successes d) \<and> length (episode_successes d) = 0 \<longrightarrow>
        (should_adapt d \<longleftrightarrow> 0 < min_success_rate d)"
    by (auto simp: should_adapt_def get_success_rate_def)
  have run: "\<exists>d'. record_episodes (FailureDetector_init 10 (3/10) cats) eps = Inr d'
        \<and> (should_adapt d' \<longleftrightarrow> 5 \<le> length eps)"
    if len: "length eps \<le> 10" and fail: "\<forall>e \<in> set eps. \<not> fst (snd e)"
    for eps :: "episode list" and cats
  proof -
    let ?d0 = "FailureDetector_init 10 (3/10) cats"
    have d0: "window_size ?d0 = 10" "min_success_rate ?d0 = 3/10" "episode_successes ?d0 = []"
      by (simp_all add: FailureDetector_init_def Let_def)
    from record_episodes_successes[OF tally_wf_init, of 10 "3/10" cats eps] obtain d' where
      d': "record_episodes ?d0 eps = Inr d'" "window_size d' = window_size ?d0"
          "min_success_rate d' = min_success_rate ?d0"
          "episode_successes d' =
             foldl (deque_append (window_size ?d0)) (episode_successes ?d0) (map (\<lambda>e. fst (snd e)) eps)"
      by blast
    have s: "episode_successes d' = map (\<lambda>e. fst (snd e)) eps"
      using d'(4) len by (simp add: d0 foldl_deque_append_short)
    have "\<forall>b \<in> set (episode_successes d'). \<not> b" using fail by (auto simp: s)
    moreover have "0 < min_success_rate d'" by (simp add: d'(3) d0)
    ultimately have "should_adapt d' \<longleftrightarrow> window_size d' div 2 \<le> length (episode_successes d')"
      by (rule should_adapt_all_failures)
    then have "should_adapt d' \<longleftrightarrow> 5 \<le> length eps" by (simp add: d'(2) d0 s)
    with d'(1) show ?thesis by blast
  qed
  have e5: "\<forall>eps cats. length eps = 5 \<and> (\<forall>e \<in> set eps. \<not> fst (snd e)) \<longrightarrow>
        (\<exists>d'. record_episodes (FailureDetector_init 10 (3/10) cats) eps = Inr d' \<and> should_adapt d')"
  proof (intro allI impI)
    fix eps :: "episode list" and cats
    assume h: "length eps = 5 \<and> (\<forall>e \<in> set eps. \<not> fst (snd e))"
    then have "length eps \<le> 10" by simp
    from run[OF this, of cats] h show
      "\<exists>d'. record_episodes (FailureDetector_init 10 (3/10) cats) eps = Inr d' \<and> should_adapt d'"
      by auto
  qed
  have e4: "\<forall>eps cats. length eps = 4 \<and> (\<forall>e \<in> set eps. \<not> fst (snd e)) \<longrightarrow>
        (\<exists>d'. record_episodes (FailureDetector_init 10 (3/10) cats) eps = Inr d' \<and> \<not> should_adapt d')"
  proof (intro allI impI)
    fix eps :: "episode list" and cats
    assume h: "length eps = 4 \<and> (\<forall>e \<in> set eps. \<not> fst (snd e))"
    then have "length eps \<le> 10" by simp
    from run[OF this, of cats] h show
      "\<exists>d'. record_episodes (FailureDetector_init 10 (3/10) cats) eps = Inr d' \<and> \<not> should_adapt d'"
      by auto
  qed
  from a b c e5 e4 show ?thesis by blast
qed

text \<open>
  At concrete inputs: five failures on a fresh detector of window 10, and a window with
  two successes out of six (rate 1/3, not below 0.3).
\<close>

theorem should_adapt_rule_witness:
  "length five_failures = 5 \<and> list_all (\<lambda>e. \<not> fst (snd e)) five_failures
   \<and> (\<exists>d'. record_episodes (FailureDetector_init 10 (3/10) None) five_failures = Inr d'
          \<and> should_adapt d')
   \<and> window_size mixed_window div 2 \<le> length (episode_successes mixed_window)
   \<and> 0 < length (episode_successes mixed_window)
   \<and> \<not> should_adapt mixed_window"
proof -
  have h: "length five_failures = 5 \<and> (\<forall>e \<in> set five_failures. \<not> fst (snd e))"
    by (simp add: five_failures_def)
  have m: "window_size mixed_window div 2 \<le> length (episode_successes mixed_window)
           \<and> 0 < length (episode_successes mixed_window)"
    by (simp add: mixed_window_def FailureDetector_init_def)
  have r: "\<not> real (length (filter (\<lambda>b. b) (episode_successes mixed_window)))
              / real (length (episode_successes mixed_window)) < min_success_rate mixed_window"
    by (simp add: mixed_window_def FailureDetector_init_def)
  have l: "list_all (\<lambda>e. \<not> fst (snd e)) five_failures"
    by (simp add: five_failures_def list_all_iff)
  from should_adapt_rule[of mixed_window] h m r l show ?thesis by blast
qed


subsection \<open>C3: the difficulty stays between 0.1 and 1.0\<close>

text \<open>
  Claim C3. A new judge has difficulty 0.3. After any sequence of calls of
  \<open>evaluate_performance\<close>, whatever the service did on each of them (a raised exception,
  an unparsable reply, any delta), the stored difficulty lies in the closed interval
  from 0.1 to 1.0, and so does the \<open>difficulty_level\<close> of the judgment any further call
  returns.
\<close>

theorem difficulty_in_range:
  "difficulty (LLMJudge_init p) = 3/10
   \<and> 1/10 \<le> difficulty (evaluate_all loads (LLMJudge_init p) calls)
   \<and> difficulty (evaluate_all loads (LLMJudge_init p) calls) \<le> 1
   \<and> 1/10 \<le> difficulty_level
        (fst (evaluate_performance loads now (evaluate_all loads (LLMJudge_init p) calls) out))
   \<and> difficulty_level
        (fst (evaluate_performance loads now (evaluate_all loads (LLMJudge_init p) calls) out)) \<le> 1"
proof -
  have i: "difficulty (LLMJudge_init p) = 3/10" by (simp add: LLMJudge_init_def)
  then have r: "1/10 \<le> difficulty (LLMJudge_init p)" "difficulty (LLMJudge_init p) \<le> 1" by simp_all
  from evaluate_all_range[OF r, of loads calls]
  have a: "1/10 \<le> difficulty (evaluate_all loads (LLMJudge_init p) calls)"
          "difficulty (evaluate_all loads (LLMJudge_init p) calls) \<le> 1" by simp_all
  from evaluate_performance_range[OF a, of loads now out] i a show ?thesis by simp
qed

text \<open>A fenced reply raising the difficulty by 0.1, followed by a failed service call.\<close>

theorem difficulty_in_range_witness:
  "evaluate_all sample_loads (LLMJudge_init (1/10))
      [(10, ServiceContent (Some reply_plus_01)), (20, ServiceRaises ''timeout'')]
     = (LLMJudge_init (1/10))
         \<lparr> difficulty := 2/5,
           evaluation_history := [normal_judgment 10 (LLMJudge_init (1/10))
                                    [(''difficulty_adjustment'', JNum (1/10))]] \<rparr>
   \<and> 1/10 \<le> difficulty (evaluate_all sample_loads (LLMJudge_init (1/10))
      [(10, ServiceContent (Some reply_plus_01)), (20, ServiceRaises ''timeout'')])
   \<and> difficulty (evaluate_all sample_loads (LLMJudge_init (1/10))
      [(10, ServiceContent (Some reply_plus_01)), (20, ServiceRaises ''timeout'')]) \<le> 1"
proof -
  have 1: "evaluate_performance sample_loads 10 (LLMJudge_init (1/10)) (ServiceContent (Some reply_plus_01))
     = (normal_judgment 10 (LLMJudge_init (1/10)) [(''difficulty_adjustment'', JNum (1/10))],
        (LLMJudge_init (1/10))
         \<lparr> difficulty := 2/5,
           evaluation_history := [normal_judgment 10 (LLMJudge_init (1/10))
                                    [(''difficulty_adjustment'', JNum (1/10))]] \<rparr>)"
    by (simp add: evaluate_performance_object[OF parsed_plus_01] adjustment_def LLMJudge_init_def)
  have 2: "snd (evaluate_performance sample_loads 20 j (ServiceRaises ''timeout'')) = j" for j
    by (simp add: evaluate_performance_def evaluate_try_def)
  have "evaluate_all sample_loads (LLMJudge_init (1/10))
      [(10, ServiceContent (Some reply_plus_01)), (20, ServiceRaises ''timeout'')]
     = (LLMJudge_init (1/10))
         \<lparr> difficulty := 2/5,
           evaluation_history := [normal_judgment 10 (LLMJudge_init (1/10))
                                    [(''difficulty_adjustment'', JNum (1/10))]] \<rparr>"
    by (simp add: 1 2)
  with difficulty_in_range[of "1/10" sample_loads
      "[(10, ServiceContent (Some reply_plus_01)), (20, ServiceRaises ''timeout'')]"]
  show ?thesis by simp
qed


subsection \<open>C4: the cadence of the adaptation loop\<close>

text \<open>
  Claim C4, evaluated where the code departs from it. \<open>_on_step\<close> tests the cadence on
  the length of the detector's success window, which stops growing at \<open>window_size\<close>,
  not on the number of completed episodes. With \<open>window_size = 4\<close>, the default
  threshold and \<open>adaptation_frequency = 2\<close>, five failed episodes are recorded one after
  the other: the controller is called after the second and the fourth episode, and
  again after the fifth, whose ordinal is not a multiple of 2, because the window still
  holds four entries.
\<close>

theorem cadence_after_window_full:
  "window_size (failure_detector small_callback) = 4
   \<and> adaptation_frequency small_callback = 2
   \<and> (case on_steps small_callback five_failed_episodes of
        Inl e \<Rightarrow> False
      | Inr cb \<Rightarrow> length (episode_successes (failure_detector cb)) = 4
                 \<and> episodes_completed cb = 5 \<and> controller_calls cb = [2, 4, 5])"
proof -
  have wf0: "tally_wf (failure_detector small_callback)"
    by (simp add: small_callback_def CurriculumCallback_init_def tally_wf_init)
  have fr0: "adaptation_frequency small_callback = 2"
    and rw0: "current_episode_reward small_callback = 0"
    and w0: "window_size (failure_detector small_callback) = 4"
    and m0: "min_success_rate (failure_detector small_callback) = 3/10"
    and es0: "episode_successes (failure_detector small_callback) = replicate 0 False"
    and e0: "episodes_completed small_callback = 0" "controller_calls small_callback = []"
    by (simp_all add: small_callback_def CurriculumCallback_init_def FailureDetector_init_def Let_def)
  have n0: "(0::nat) \<le> 4" by simp
  from small_step[OF wf0 fr0 rw0 w0 m0 es0 n0, of "ControllerReturns ''add fog''"]
  obtain cb1 where r1:
      "on_step small_callback 0 True (ControllerReturns ''add fog'') = Inr cb1"
      "tally_wf (failure_detector cb1)" "adaptation_frequency cb1 = 2"
      "current_episode_reward cb1 = 0"
      "window_size (failure_detector cb1) = 4"
      "min_success_rate (failure_detector cb1) = 3/10"
      "episode_successes (failure_detector cb1) = replicate (min 4 (Suc 0)) False"
      "episodes_completed cb1 = episodes_completed small_callback + 1"
      "controller_calls cb1 =
          (if even (min 4 (Suc 0)) \<and> 2 \<le> min 4 (Suc 0)
           then controller_calls small_callback @ [episodes_completed small_callback + 1]
           else controller_calls small_callback)"
    by blast
  have k1: "min 4 (Suc 0) = (1::nat)" by simp
  have a1: "episode_successes (failure_detector cb1) = replicate 1 False"
    using r1(7) unfolding k1 .
  have b1: "episodes_completed cb1 = 1"
    using r1(8) e0(1) by simp
  have c1: "controller_calls cb1 = []"
    using r1(9) e0(1) e0(2) unfolding k1 by simp
  have n1: "(1::nat) \<le> 4" by simp
  from small_step[OF r1(2) r1(3) r1(4) r1(5) r1(6) a1 n1, of "ControllerReturns ''add fog''"]
  obtain cb2 where r2:
      "on_step cb1 0 True (ControllerReturns ''add fog'') = Inr cb2"
      "tally_wf (failure_detector cb2)" "adaptation_frequency cb2 = 2"
      "current_episode_reward cb2 = 0"
      "window_size (failure_detector cb2) = 4"
      "min_success_rate (failure_detector cb2) = 3/10"
      "episode_successes (failure_detector cb2) = replicate (min 4 (Suc 1)) False"
      "episodes_completed cb2 = episodes_completed cb1 + 1"
      "controller_calls cb2 =
          (if even (min 4 (Suc 1)) \<and> 2 \<le> min 4 (Suc 1)
           then controller_calls cb1 @ [episodes_completed cb1 + 1]
           else controller_calls cb1)"
    by blast
  have k2: "min 4 (Suc 1) = (2::nat)" by simp
  have a2: "episode_successes (failure_detector cb2) = replicate 2 False"
    using r2(7) unfolding k2 .
  have b2: "episodes_completed cb2 = 2"
    using r2(8) b1 by simp
  have c2: "controller_calls cb2 = [2]"
    using r2(9) b1 c1 unfolding k2 by simp
  have n2: "(2::nat) \<le> 4" by simp
  from small_step[OF r2(2) r2(3) r2(4) r2(5) r2(6) a2 n2, of "ControllerReturns ''add fog''"]
  obtain cb3 where r3:
      "on_step cb2 0 True (ControllerReturns ''add fog'') = Inr cb3"
      "tally_wf (failure_detector cb3)" "adaptation_frequency cb3 = 2"
      "current_episode_reward cb3 = 0"
      "window_size (failure_detector cb3) = 4"
      "min_success_rate (failure_detector cb3) = 3/10"
      "episode_successes (failure_detector cb3) = replicate (min 4 (Suc 2)) False"
      "episodes_completed cb3 = episodes_completed cb2 + 1"
      "controller_calls cb3 =
          (if even (min 4 (Suc 2)) \<and> 2 \<le> min 4 (Suc 2)
           then controller_calls cb2 @ [episodes_completed cb2 + 1]
           else controller_calls cb2)"
    by blast
  have k3: "min 4 (Suc 2) = (3::nat)" by simp
  have a3: "episode_successes (failure_detector cb3) = replicate 3 False"
    using r3(7) unfolding k3 .
  have b3: "episodes_completed cb3 = 3"
    using r3(8) b2 by simp
  have c3: "controller_calls cb3 = [2]"
    using r3(9) b2 c2 unfolding k3 by simp
  have n3: "(3::nat) \<le> 4" by simp
  from small_step[OF r3(2) r3(3) r3(4) r3(5) r3(6) a3 n3, of "ControllerReturns ''add fog''"]
  obtain cb4 where r4:
      "on_step cb3 0 True (ControllerReturns ''add fog'') = Inr cb4"
      "tally_wf (failure_detector cb4)" "adaptation_frequency cb4 = 2"
      "current_episode_reward cb4 = 0"
      "window_size (failure_detector cb4) = 4"
      "min_success_rate (failure_detector cb4) = 3/10"
      "episode_successes (failure_detector cb4) = replicate (min 4 (Suc 3)) False"
      "episodes_completed cb4 = episodes_completed cb3 + 1"
      "controller_calls cb4 =
          (if even (min 4 (Suc 3)) \<and> 2 \<le> min 4 (Suc 3)
           then controller_calls cb3 @ [episodes_completed cb3 + 1]
           else controller_calls cb3)"
    by blast
  have k4: "min 4 (Suc 3) = (4::nat)" by simp
  have a4: "episode_successes (failure_detector cb4) = replicate 4 False"
    using r4(7) unfolding k4 .
  have b4: "episodes_completed cb4 = 4"
    using r4(8) b3 by simp
  have c4: "controller_calls cb4 = [2, 4]"
    using r4(9) b3 c3 unfolding k4 by simp
  have n4: "(4::nat) \<le> 4" by simp
  from small_step[OF r4(2) r4(3) r4(4) r4(5) r4(6) a4 n4, of "ControllerReturns ''add fog''"]
  obtain cb5 where r5:
      "on_step cb4 0 True (ControllerReturns ''add fog'') = Inr cb5"
      "tally_wf (failure_detector cb5)" "adaptation_frequency cb5 = 2"
      "current_episode_reward cb5 = 0"
      "window_size (failure_detector cb5) = 4"
      "min_success_rate (failure_detector cb5) = 3/10"
      "episode_successes (failure_detector cb5) = replicate (min 4 (Suc 4)) False"
      "episodes_completed cb5 = episodes_completed cb4 + 1"
      "controller_calls cb5 =
          (if even (min 4 (Suc 4)) \<and> 2 \<le> min 4 (Suc 4)
           then controller_calls cb4 @ [episodes_completed cb4 + 1]
           else controller_calls cb4)"
    by blast
  have k5: "min 4 (Suc 4) = (4::nat)" by simp
  have a5: "episode_successes (failure_detector cb5) = replicate 4 False"
    using r5(7) unfolding k5 .
  have b5: "episodes_completed cb5 = 5"
    using r5(8) b4 by simp
  have c5: "controller_calls cb5 = [2, 4, 5]"
    using r5(9) b4 c4 unfolding k5 by simp
  have n5: "(4::nat) \<le> 4" by simp
  have l: "five_failed_episodes =
      [(0, True, ControllerReturns ''add fog''), (0, True, ControllerReturns ''add fog''),
       (0, True, ControllerReturns ''add fog''), (0, True, ControllerReturns ''add fog''),
       (0, True, ControllerReturns ''add fog'')]"
    by (simp add: five_failed_episodes_def eval_nat_numeral)
  have "on_steps small_callback five_failed_episodes = Inr cb5"
    unfolding l by (simp add: try_bind_def r1(1) r2(1) r3(1) r4(1) r5(1))
  then show ?thesis
    using fr0 w0 a5 b5 c5 by simp
qed


subsection \<open>C5: the delta is added as it is read\<close>

text \<open>
  Claim C5, as the code has it. When the reply parses to a dict whose
  \<open>difficulty_adjustment\<close> is the number \<open>x\<close>, the new difficulty is
  \<open>max 0.1 (min 1.0 (d + x))\<close> for the old difficulty \<open>d\<close>: the raw delta is added in
  full and only the sum is clamped. This is the specification's formula whenever \<open>x\<close>
  already lies between -0.1 and 0.1. From 0.95 a delta of 0.10 gives exactly 1.0, and from
  0.15 a delta of -0.10 gives exactly 0.10.
\<close>

theorem difficulty_update_unclamped_delta:
  assumes "parsed_reply loads out = Some (JObj kv)"
    and "map_of kv ''difficulty_adjustment'' = Some (JNum x)"
  shows "difficulty (snd (evaluate_performance loads now j out)) = max (1/10) (min 1 (difficulty j + x))
     \<and> difficulty_level (fst (evaluate_performance loads now j out))
         = max (1/10) (min 1 (difficulty j + x))
     \<and> (- (1/10) \<le> x \<and> x \<le> 1/10 \<longrightarrow>
          difficulty (snd (evaluate_performance loads now j out)) = spec_new_difficulty (difficulty j) x)
     \<and> (difficulty j = 95/100 \<and> x = 1/10 \<longrightarrow>
          difficulty (snd (evaluate_performance loads now j out)) = 1)
     \<and> (difficulty j = 15/100 \<and> x = - (1/10) \<longrightarrow>
          difficulty (snd (evaluate_performance loads now j out)) = 1/10)"
proof -
  have a: "case map_of kv ''difficulty_adjustment'' of None \<Rightarrow> True | Some v \<Rightarrow> addable v"
    using assms(2) by simp
  have adj: "adjustment kv = x" using assms(2) by (simp add: adjustment_def)
  have d: "difficulty (snd (evaluate_performance loads now j out)) = max (1/10) (min 1 (difficulty j + x))"
    by (simp add: evaluate_performance_object[OF assms(1) a] adj)
  have l: "difficulty_level (fst (evaluate_performance loads now j out))
         = max (1/10) (min 1 (difficulty j + x))"
    by (simp add: evaluate_performance_object[OF assms(1) a] adj normal_judgment_def)
  have s: "- (1/10) \<le> x \<and> x \<le> 1/10 \<longrightarrow>
          max (1/10) (min 1 (difficulty j + x)) = spec_new_difficulty (difficulty j) x"
    by (simp add: spec_new_difficulty_def spec_clamp_delta_def max_def min_def)
  have u: "difficulty j = 95/100 \<and> x = 1/10 \<longrightarrow> max (1/10) (min 1 (difficulty j + x)) = 1"
    by (simp add: max_def min_def)
  have v: "difficulty j = 15/100 \<and> x = - (1/10) \<longrightarrow> max (1/10) (min 1 (difficulty j + x)) = 1/10"
    by (simp add: max_def min_def)
  from d l s u v show ?thesis by simp
qed

text \<open>From 0.95, a reply carrying 0.1.\<close>

theorem difficulty_update_unclamped_delta_witness:
  "parsed_reply sample_loads (ServiceContent (Some reply_plus_01))
     = Some (JObj [(''difficulty_adjustment'', JNum (1/10))])
   \<and> map_of [(''difficulty_adjustment'', JNum (1/10))] ''difficulty_adjustment'' = Some (JNum (1/10))
   \<and> difficulty (snd (evaluate_performance sample_loads 3
        ((LLMJudge_init (1/10))\<lparr> difficulty := 95/100 \<rparr>)
        (ServiceContent (Some reply_plus_01)))) = 1"
proof -
  have m: "map_of [(''difficulty_adjustment'', JNum (1/10))] ''difficulty_adjustment'' = Some (JNum (1/10))"
    by simp
  from difficulty_update_unclamped_delta[OF parsed_plus_01 m, of 3
      "(LLMJudge_init (1/10))\<lparr> difficulty := 95/100 \<rparr>"]
  have "difficulty (snd (evaluate_performance sample_loads 3
        ((LLMJudge_init (1/10))\<lparr> difficulty := 95/100 \<rparr>)
        (ServiceContent (Some reply_plus_01)))) = 1"
    by simp
  then show ?thesis using parsed_plus_01 m by simp
qed

text \<open>
  From 0.5, a reply carrying -0.3 moves the difficulty to 0.2; with the delta restricted
  to -0.1 first, as the specification has it, the result would be 0.4.
\<close>

theorem delta_not_clamped_counterexample:
  "difficulty (snd (evaluate_performance sample_loads 3
        ((LLMJudge_init (1/10))\<lparr> difficulty := 1/2 \<rparr>)
        (ServiceContent (Some reply_minus_03)))) = 1/5
   \<and> spec_new_difficulty (1/2) (- (3/10)) = 2/5"
proof -
  have a: "case map_of [(''difficulty_adjustment'', JNum (- (3/10)))] ''difficulty_adjustment'' of
             None \<Rightarrow> True | Some v \<Rightarrow> addable v" by simp
  have "difficulty (snd (evaluate_performance sample_loads 3
        ((LLMJudge_init (1/10))\<lparr> difficulty := 1/2 \<rparr>)
        (ServiceContent (Some reply_minus_03)))) = 1/5"
    by (simp add: evaluate_performance_object[OF parsed_minus_03 a] adjustment_def)
  moreover have "spec_new_difficulty (1/2) (- (3/10)) = 2/5"
    by (simp add: spec_new_difficulty_def spec_clamp_delta_def)
  ultimately show ?thesis by simp
qed


subsection \<open>C6: which replies take the fallback path\<close>

text \<open>
  Claim C6, as the code has it. A reply that parses to a dict takes the normal path
  whenever its \<open>difficulty_adjustment\<close> is absent or a number: the judgment is built with
  \<open>get\<close>, so a missing field takes its default (the empty string for \<open>observation\<close> and
  \<open>reasoning\<close>, \<open>None\<close> for \<open>failure_mode\<close> and \<open>curriculum_prompt\<close>, 0 for the
  adjustment), the difficulty is updated and the judgment is appended to the history.
  The fallback path is taken when no value is parsed, when the parsed value is not a
  dict, or when \<open>difficulty_adjustment\<close> is present and cannot be added to a float.
\<close>

theorem reply_fields_defaulted:
  "(\<forall>kv. parsed_reply loads out = Some (JObj kv)
        \<and> (case map_of kv ''difficulty_adjustment'' of None \<Rightarrow> True | Some v \<Rightarrow> addable v) \<longrightarrow>
      (\<exists>r. evaluate_performance loads now j out =
             (r, j\<lparr> difficulty := difficulty_level r,
                     evaluation_history := evaluation_history j @ [r] \<rparr>)
         \<and> observation r = (case map_of kv ''observation'' of Some v \<Rightarrow> v | None \<Rightarrow> JStr '''')
         \<and> failure_mode r = (case map_of kv ''failure_mode'' of Some v \<Rightarrow> v | None \<Rightarrow> JNull)
         \<and> reasoning r = (case map_of kv ''reasoning'' of Some v \<Rightarrow> v | None \<Rightarrow> JStr '''')
         \<and> curriculum_prompt r =
               (case map_of kv ''curriculum_prompt'' of Some v \<Rightarrow> v | None \<Rightarrow> JNull)
         \<and> difficulty_level r = max (1/10) (min 1 (difficulty j + adjustment kv))))
   \<and> (parsed_reply loads out = None
        \<or> (\<exists>v. parsed_reply loads out = Some v \<and> (\<forall>kv. v \<noteq> JObj kv))
        \<or> (\<exists>kv a. parsed_reply loads out = Some (JObj kv)
               \<and> map_of kv ''difficulty_adjustment'' = Some a \<and> \<not> addable a) \<longrightarrow>
       (\<exists>e. evaluate_performance loads now j out = (fallback_judgment now j e, j)))"
proof (intro conjI allI impI)
  fix kv
  assume h: "parsed_reply loads out = Some (JObj kv)
        \<and> (case map_of kv ''difficulty_adjustment'' of None \<Rightarrow> True | Some v \<Rightarrow> addable v)"
  then have e: "evaluate_performance loads now j out =
         (normal_judgment now j kv,
          j\<lparr> difficulty := max (1/10) (min 1 (difficulty j + adjustment kv)),
             evaluation_history := evaluation_history j @ [normal_judgment now j kv] \<rparr>)"
    by (simp add: evaluate_performance_object)
  show "\<exists>r. evaluate_performance loads now j out =
             (r, j\<lparr> difficulty := difficulty_level r,
                     evaluation_history := evaluation_history j @ [r] \<rparr>)
         \<and> observation r = (case map_of kv ''observation'' of Some v \<Rightarrow> v | None \<Rightarrow> JStr '''')
         \<and> failure_mode r = (case map_of kv ''failure_mode'' of Some v \<Rightarrow> v | None \<Rightarrow> JNull)
         \<and> reasoning r = (case map_of kv ''reasoning'' of Some v \<Rightarrow> v | None \<Rightarrow> JStr '''')
         \<and> curriculum_prompt r =
               (case map_of kv ''curriculum_prompt'' of Some v \<Rightarrow> v | None \<Rightarrow> JNull)
         \<and> difficulty_level r = max (1/10) (min 1 (difficulty j + adjustment kv))"
    by (rule exI[of _ "normal_judgment now j kv"]) (simp add: e normal_judgment_def field_def)
next
  assume "parsed_reply loads out = None
        \<or> (\<exists>v. parsed_reply loads out = Some v \<and> (\<forall>kv. v \<noteq> JObj kv))
        \<or> (\<exists>kv a. parsed_reply loads out = Some (JObj kv)
               \<and> map_of kv ''difficulty_adjustment'' = Some a \<and> \<not> addable a)"
  then have "reply_fails loads out"
    by (auto simp: reply_fails_def split: option.splits json.splits)
  then show "\<exists>e. evaluate_performance loads now j out = (fallback_judgment now j e, j)"
    by (rule evaluate_performance_fails)
qed

text \<open>A reply with the observation only.\<close>

theorem reply_fields_defaulted_witness:
  "parsed_reply sample_loads (ServiceContent (Some reply_observation_only))
     = Some (JObj [(''observation'', JStr ''arm stalls near the cube'')])
   \<and> (\<exists>r. evaluate_performance sample_loads 5 (LLMJudge_init (1/10))
              (ServiceContent (Some reply_observation_only))
            = (r, (LLMJudge_init (1/10))\<lparr> evaluation_history := [r] \<rparr>)
        \<and> observation r = JStr ''arm stalls near the cube''
        \<and> failure_mode r = JNull
        \<and> reasoning r = JStr ''''
        \<and> curriculum_prompt r = JNull
        \<and> difficulty_level r = 3/10)"
proof -
  let ?kv = "[(''observation'', JStr ''arm stalls near the cube'')]"
  have a: "parsed_reply sample_loads (ServiceContent (Some reply_observation_only)) = Some (JObj ?kv)
     \<and> (case map_of ?kv ''difficulty_adjustment'' of None \<Rightarrow> True | Some v \<Rightarrow> addable v)"
    by (simp add: parsed_observation_only)
  from reply_fields_defaulted[of sample_loads "ServiceContent (Some reply_observation_only)"
      5 "LLMJudge_init (1/10)"] a
  obtain r where r: "evaluate_performance sample_loads 5 (LLMJudge_init (1/10))
              (ServiceContent (Some reply_observation_only))
            = (r, (LLMJudge_init (1/10))\<lparr> difficulty := difficulty_level r,
                     evaluation_history := evaluation_history (LLMJudge_init (1/10)) @ [r] \<rparr>)"
      "observation r = (case map_of ?kv ''observation'' of Some v \<Rightarrow> v | None \<Rightarrow> JStr '''')"
      "failure_mode r = (case map_of ?kv ''failure_mode'' of Some v \<Rightarrow> v | None \<Rightarrow> JNull)"
      "reasoning r = (case map_of ?kv ''reasoning'' of Some v \<Rightarrow> v | None \<Rightarrow> JStr '''')"
      "curriculum_prompt r = (case map_of ?kv ''curriculum_prompt'' of Some v \<Rightarrow> v | None \<Rightarrow> JNull)"
      "difficulty_level r = max (1/10) (min 1 (difficulty (LLMJudge_init (1/10)) + adjustment ?kv))"
    by blast
  have d: "difficulty_level r = 3/10"
    using r(6) by (simp add: LLMJudge_init_def adjustment_def)
  have "evaluate_performance sample_loads 5 (LLMJudge_init (1/10))
              (ServiceContent (Some reply_observation_only))
            = (r, (LLMJudge_init (1/10))\<lparr> evaluation_history := [r] \<rparr>)"
    using r(1) d by (simp add: LLMJudge_init_def)
  moreover have "observation r = JStr ''arm stalls near the cube''" "failure_mode r = JNull"
      "reasoning r = JStr ''''" "curriculum_prompt r = JNull"
    using r(2-5) by simp_all
  ultimately show ?thesis using d parsed_observation_only by blast
qed

text \<open>
  The reply \<open>{}\<close> is valid JSON with none of the five fields. It does not take the
  fallback path: the judgment has \<open>failure_mode = None\<close> and is appended to the history.
\<close>

theorem missing_fields_counterexample:
  "parsed_reply sample_loads (ServiceContent (Some reply_empty_object)) = Some (JObj [])
   \<and> failure_mode (fst (evaluate_performance sample_loads 5 (LLMJudge_init (1/10))
        (ServiceContent (Some reply_empty_object)))) = JNull
   \<and> evaluation_history (snd (evaluate_performance sample_loads 5 (LLMJudge_init (1/10))
        (ServiceContent (Some reply_empty_object))))
      = [fst (evaluate_performance sample_loads 5 (LLMJudge_init (1/10))
        (ServiceContent (Some reply_empty_object)))]"
proof -
  have a: "case map_of [] ''difficulty_adjustment'' of None \<Rightarrow> True | Some v \<Rightarrow> addable v"
    by simp
  show ?thesis
    by (simp add: parsed_empty_object evaluate_performance_object[OF parsed_empty_object a]
        normal_judgment_def field_def LLMJudge_init_def)
qed


subsection \<open>C7: the category test ignores the case of the label only\<close>

text \<open>
  Claim C7, evaluated where the code departs from it. \<open>record_episode\<close> compares each
  category name, as it was configured, with the lower-cased label. A detector
  configured with the category \<open>Lighting\<close> records a failed episode under the label
  \<open>harsh lighting\<close>: the name occurs in the label when case is ignored, the call
  returns normally, and the tally of \<open>Lighting\<close> is still 0. The same episode on a
  detector configured with \<open>lighting\<close> is counted.
\<close>

theorem capitalised_category_not_counted:
  "ci_substring ''Lighting'' ''harsh lighting''
   \<and> (case record_episode (FailureDetector_init 10 (3/10) (Some [''Lighting'']))
              0 False 7 (Some ''harsh lighting'') of
        Inl e \<Rightarrow> False
      | Inr d' \<Rightarrow> failure_counts d' ''Lighting'' = Some 0)
   \<and> (case record_episode (FailureDetector_init 10 (3/10) (Some [''lighting'']))
              0 False 7 (Some ''harsh lighting'') of
        Inl e \<Rightarrow> False
      | Inr d' \<Rightarrow> failure_counts d' ''lighting'' = Some 1)"
  by (simp add: ci_substring_def lower_def lower_char_def record_episode_def
      FailureDetector_init_def Let_def)


subsection \<open>C8: the frame buffer keeps the newest frames\<close>

text \<open>
  Claim C8. \<open>_on_frame\<close> uses the two calls of the queue that do not wait, so a push
  always returns. For a buffer of positive capacity \<open>c\<close>: a push on a buffer holding \<open>c\<close>
  frames removes the single oldest one and appends the new one; and after the frames
  \<open>fs\<close>, \<open>c + k\<close> of them, have been pushed on an empty buffer, the queue holds exactly
  the last \<open>c\<close> frames of \<open>fs\<close> in their order and \<open>k\<close> frames have been evicted. The
  model is that of one producer; a consumer running between the calls is not modelled.
\<close>

theorem frame_buffer_keeps_newest:
  assumes "0 < c"
  shows "(\<forall>(q :: 'f list) f l n. length q = c \<longrightarrow>
            on_frame \<lparr> maxsize = c, frame_queue = q, latest_frame = l, evictions = n \<rparr> f
              = \<lparr> maxsize = c, frame_queue = tl q @ [f], latest_frame = Some f,
                  evictions = n + 1 \<rparr>)
       \<and> (\<forall>(fs :: 'f list) k. length fs = c + k \<longrightarrow>
            frame_queue (push_frames (empty_buffer c) fs) = drop k fs
            \<and> length (frame_queue (push_frames (empty_buffer c) fs)) = c
            \<and> evictions (push_frames (empty_buffer c) fs) = k)"
proof -
  have one: "on_frame \<lparr> maxsize = c, frame_queue = q, latest_frame = l, evictions = n \<rparr> f
              = \<lparr> maxsize = c, frame_queue = tl q @ [f], latest_frame = Some f,
                  evictions = n + 1 \<rparr>"
    if "length q = c" for q :: "'f list" and f l n
    using assms that by (simp add: on_frame_full)
  have many: "frame_queue (push_frames (empty_buffer c) fs) = drop k fs
            \<and> length (frame_queue (push_frames (empty_buffer c) fs)) = c
            \<and> evictions (push_frames (empty_buffer c) fs) = k"
    if len: "length fs = c + k" for fs :: "'f list" and k
  proof -
    have "0 < maxsize (empty_buffer c) \<and> length (frame_queue (empty_buffer c)) \<le> maxsize (empty_buffer c)"
      using assms by (simp add: empty_buffer_def)
    with push_frames_general[of "empty_buffer c" fs] len
    have r: "frame_queue (push_frames (empty_buffer c) fs) = drop k fs"
            "evictions (push_frames (empty_buffer c) fs) = k"
      by (simp_all add: empty_buffer_def)
    show ?thesis using r len by simp
  qed
  from one many show ?thesis by blast
qed

text \<open>Capacity 3 and five frames: the frames 3, 4 and 5 remain, two were evicted.\<close>

theorem frame_buffer_keeps_newest_witness:
  "(0::nat) < 3 \<and> length [1, 2, 3, 4, 5 :: nat] = 3 + 2
   \<and> frame_queue (push_frames (empty_buffer 3) [1, 2, 3, 4, 5 :: nat]) = [3, 4, 5]
   \<and> evictions (push_frames (empty_buffer 3) [1, 2, 3, 4, 5 :: nat]) = 2"
proof -
  have h: "(0::nat) < 3" by simp
  have l: "length [1, 2, 3, 4, 5 :: nat] = 3 + 2" by simp
  from frame_buffer_keeps_newest[OF h] l
  have "frame_queue (push_frames (empty_buffer 3) [1, 2, 3, 4, 5 :: nat]) = drop 2 [1, 2, 3, 4, 5]
        \<and> evictions (push_frames (empty_buffer 3) [1, 2, 3, 4, 5 :: nat]) = 2"
    by blast
  then show ?thesis by simp
qed


subsection \<open>C9: interact without an active stream\<close>

text \<open>
  Claim C9, checked on both transports with no stream started. The client raises
  \<open>RuntimeError\<close> with the message \<open>No active stream to interact with\<close> before it
  writes anything to the socket. The mock client has no such test: on a freshly
  constructed mock, whose stream identifier is \<open>None\<close>, \<open>interact\<close> returns normally
  and the instruction takes effect (the arm moves from 320 to 300).
\<close>

theorem mock_interact_without_stream:
  "client_interact connected_client ''move left''
     = Inl (RuntimeError ''No active stream to interact with'')
   \<and> mock_stream_id MockOdysseyClient_init = None
   \<and> mock_interact MockOdysseyClient_init ''move left''
     = MockOdysseyClient_init\<lparr> arm_x := 300 \<rparr>"
  by (simp add: client_interact_def connected_client_def MockOdysseyClient_init_def
      mock_interact_def mock_move_def mock_gripper_def mock_lighting_def lower_def lower_char_def)


subsection \<open>C10: the detector with no recorded episode\<close>





end
